theory Spec2Isabelle
  imports Main "HOL-Library.Code_Target_Numeral"
begin

section \<open>JavaScript values used by index.js\<close>

text \<open>
  A JavaScript string is a sequence of UTF-16 code units; the code units are kept as
  natural numbers so that the whitespace class of regular expressions can be written
  out in full. \<open>ascii\<close> turns a literal of the theory into such a string.
\<close>

type_synonym jsstring = "nat list"

definition ascii :: "string \<Rightarrow> jsstring" where
  "ascii s = map of_char s"

text \<open>Truthiness of a value that is a string, or \<open>undefined\<close>/\<open>false\<close>/\<open>null\<close> (\<open>None\<close>).\<close>

definition truthy_str :: "jsstring option \<Rightarrow> bool" where
  "truthy_str v = (case v of None \<Rightarrow> False | Some s \<Rightarrow> s \<noteq> [])"

text \<open>
  The messages of the errors index.js creates. Each tagged template
  \<^verbatim>\<open>Y()`...${x}...`\<close> is a constructor holding the interpolated values; \<open>Raw\<close> is the
  message of an error that comes from a collaborator (fs, which, child).
\<close>

datatype message =
    Raw jsstring
  | CommandNotFound jsstring
  | InstallFailed "jsstring list option" int
  | NodeArgUsage
  | MustSupplyCommand
  | InvalidArgType
  | InvalidRegExp jsstring
  | CannotCreateProperty

record jserror =
  code :: "jsstring option"
  message :: message
  exitCode :: "int option"
  isOperational :: bool

text \<open>\<^verbatim>\<open>new Error(msg)\<close>: no code, no exit code, not operational.\<close>

definition new_Error :: "message \<Rightarrow> jserror" where
  "new_Error m = \<lparr>code = None, message = m, exitCode = None, isOperational = False\<rparr>"

text \<open>The \<open>TypeError\<close> and \<open>SyntaxError\<close> that the runtime throws.\<close>

definition TypeError :: "message \<Rightarrow> jserror" where
  "TypeError m = new_Error m"

definition SyntaxError :: "message \<Rightarrow> jserror" where
  "SyntaxError m = new_Error m"

text \<open>\<^verbatim>\<open>err.exitCode\<close> as a condition: a number other than 0.\<close>

definition truthy_exitCode :: "jserror \<Rightarrow> bool" where
  "truthy_exitCode err = (case exitCode err of None \<Rightarrow> False | Some c \<Rightarrow> c \<noteq> 0)"

text \<open>
  \<^verbatim>\<open>argv.nodeArg\<close>: absent, one string, or an array of strings.
\<close>

datatype nodearg = NoNodeArg | NodeArgStr jsstring | NodeArgArr "jsstring list"

text \<open>\<^verbatim>\<open>argv.nodeArg\<close> as a condition: an array is truthy, a string is truthy unless empty.\<close>

fun truthy_nodeArg :: "nodearg \<Rightarrow> bool" where
  "truthy_nodeArg NoNodeArg = False"
| "truthy_nodeArg (NodeArgStr s) = (s \<noteq> [])"
| "truthy_nodeArg (NodeArgArr xs) = True"

text \<open>The parsed options (parse-args.js builds them; index.js only reads them).\<close>

record argv =
  opt_shell_auto_fallback :: "jsstring option"
  opt_call :: "jsstring option"
  opt_command :: "jsstring option"
  opt_package :: "jsstring list option"
  opt_q :: bool
  opt_no :: bool
  opt_yes :: bool
  opt_packageRequested :: bool
  opt_isLocal :: bool
  opt_cmdHadVersion :: bool
  opt_ignoreExisting :: bool
  opt_install :: "bool option"
  opt_cache :: "jsstring option"
  opt_userconfig :: "jsstring option"
  opt_npm :: "jsstring option"
  opt_alwaysSpawn :: bool
  opt_nodeArg :: nodearg
  opt_shell :: "jsstring option"
  opt_noYargs :: bool
  opt_cmdOpts :: "jsstring list option"

section \<open>Results of asynchronous calls\<close>

text \<open>
  A promise resolves, rejects, or never settles (\<open>Diverges\<close>: not returning is a value
  of the model). \<open>Exits\<close> is \<^verbatim>\<open>process.exit(c)\<close>: nothing after it runs and no handler
  catches it.
\<close>

datatype 'a result = Resolves 'a | Rejects jserror | Exits int | Diverges

fun of_sum :: "jserror + 'a \<Rightarrow> 'a result" where
  "of_sum (Inl err) = Rejects err"
| "of_sum (Inr x) = Resolves x"

section \<open>Regular expressions\<close>

text \<open>
  The character classes of the patterns in index.js: a literal code unit (\<open>Ch\<close>), a
  literal under the \<^verbatim>\<open>i\<close> flag (\<open>ChI\<close>), \<^verbatim>\<open>\s\<close> and \<^verbatim>\<open>.\<close>.
\<close>

datatype atom = Ch nat | ChI nat | Space | Dot

text \<open>
  \<^verbatim>\<open>\s\<close> is WhiteSpace and LineTerminator of ECMAScript: TAB, LF, VT, FF, CR, SP, NBSP,
  U+1680, U+2000..U+200A, U+2028, U+2029, U+202F, U+205F, U+3000, U+FEFF.
\<close>

definition is_space :: "nat \<Rightarrow> bool" where
  "is_space c \<longleftrightarrow>
     (9 \<le> c \<and> c \<le> 13) \<or> c = 32 \<or> c = 160 \<or> c = 5760 \<or> (8192 \<le> c \<and> c \<le> 8202) \<or>
     c = 8232 \<or> c = 8233 \<or> c = 8239 \<or> c = 8287 \<or> c = 12288 \<or> c = 65279"

definition is_line_terminator :: "nat \<Rightarrow> bool" where
  "is_line_terminator c \<longleftrightarrow> c = 10 \<or> c = 13 \<or> c = 8232 \<or> c = 8233"

text \<open>
  Canonicalisation under the \<^verbatim>\<open>i\<close> flag (without \<^verbatim>\<open>u\<close>): upper case, except that a code
  unit from 128 on is never mapped below 128. For the ASCII literals of the patterns
  only the two cases of a letter are therefore equal.
\<close>

definition upper :: "nat \<Rightarrow> nat" where
  "upper c = (if 97 \<le> c \<and> c \<le> 122 then c - 32 else c)"

fun am :: "atom \<Rightarrow> nat \<Rightarrow> bool" where
  "am (Ch a) c = (c = a)"
| "am (ChI a) c = (upper c = upper a)"
| "am Space c = is_space c"
| "am Dot c = (\<not> is_line_terminator c)"

text \<open>
  Patterns: \<open>Many a\<close> is \<^verbatim>\<open>a*\<close> for a character class. \<open>lang\<close> is the set of strings
  a pattern matches in full.
\<close>

datatype rx = Fail | Eps | One atom | Many atom | Alt rx rx | Seq rx rx

fun lang :: "rx \<Rightarrow> jsstring set" where
  "lang Fail = {}"
| "lang Eps = {[]}"
| "lang (One a) = {[c] | c. am a c}"
| "lang (Many a) = {w. \<forall>c \<in> set w. am a c}"
| "lang (Alt r s) = lang r \<union> lang s"
| "lang (Seq r s) = {u @ v | u v. u \<in> lang r \<and> v \<in> lang s}"

fun nullable :: "rx \<Rightarrow> bool" where
  "nullable Fail = False"
| "nullable Eps = True"
| "nullable (One a) = False"
| "nullable (Many a) = True"
| "nullable (Alt r s) = (nullable r \<or> nullable s)"
| "nullable (Seq r s) = (nullable r \<and> nullable s)"

fun alt :: "rx \<Rightarrow> rx \<Rightarrow> rx" where
  "alt Fail s = s"
| "alt r Fail = r"
| "alt r s = Alt r s"

fun seq :: "rx \<Rightarrow> rx \<Rightarrow> rx" where
  "seq Fail s = Fail"
| "seq Eps s = s"
| "seq r s = Seq r s"

text \<open>What is left of a pattern after the code unit \<open>c\<close>.\<close>

fun deriv :: "nat \<Rightarrow> rx \<Rightarrow> rx" where
  "deriv c Fail = Fail"
| "deriv c Eps = Fail"
| "deriv c (One a) = (if am a c then Eps else Fail)"
| "deriv c (Many a) = (if am a c then Many a else Fail)"
| "deriv c (Alt r s) = alt (deriv c r) (deriv c s)"
| "deriv c (Seq r s) =
     (if nullable r then alt (seq (deriv c r) s) (deriv c s) else seq (deriv c r) s)"

text \<open>\<open>pmatch r s\<close>: the pattern matches at the start of \<open>s\<close>.\<close>

fun pmatch :: "rx \<Rightarrow> jsstring \<Rightarrow> bool" where
  "pmatch r [] = nullable r"
| "pmatch r (c # cs) =
     (nullable r \<or> (let d = deriv c r in if d = Fail then False else pmatch d cs))"

text \<open>
  \<open>search r s\<close>: \<^verbatim>\<open>s.match(r)\<close> is not \<open>null\<close> (the pattern matches somewhere in \<open>s\<close>;
  none of the patterns is anchored).
\<close>

fun search :: "rx \<Rightarrow> jsstring \<Rightarrow> bool" where
  "search r [] = nullable r"
| "search r (c # cs) = (pmatch r (c # cs) \<or> search r cs)"

text \<open>The remainders of \<open>s\<close> after each match of the pattern at its start.\<close>

fun rests :: "rx \<Rightarrow> jsstring \<Rightarrow> jsstring list" where
  "rests r [] = (if nullable r then [[]] else [])"
| "rests r (c # cs) =
     (if nullable r then [c # cs] else []) @
     (let d = deriv c r in if d = Fail then [] else rests d cs)"

text \<open>
  The group \<^verbatim>\<open>(.*)\<close> is greedy: it takes the longest run without a line terminator
  after which the rest of the pattern (\<open>back\<close>) still matches.
\<close>

fun capture :: "rx \<Rightarrow> jsstring \<Rightarrow> nat \<Rightarrow> jsstring option" where
  "capture back s 0 = (if pmatch back s then Some [] else None)"
| "capture back s (Suc k) =
     (if pmatch back (drop (Suc k) s) then Some (take (Suc k) s) else capture back s k)"

fun first_some :: "('a \<Rightarrow> 'b option) \<Rightarrow> 'a list \<Rightarrow> 'b option" where
  "first_some f [] = None"
| "first_some f (x # xs) = (case f x of Some y \<Rightarrow> Some y | None \<Rightarrow> first_some f xs)"

definition group1_at :: "rx \<Rightarrow> rx \<Rightarrow> jsstring \<Rightarrow> jsstring option" where
  "group1_at front back s =
     first_some (\<lambda>r. capture back r (length (takeWhile (\<lambda>c. \<not> is_line_terminator c) r)))
       (rests front s)"

text \<open>
  \<open>group1 front back s\<close>: \<^verbatim>\<open>match[1]\<close> of \<^verbatim>\<open>s.match(/front(.*)back/)\<close>, \<open>None\<close> when the result is
  \<open>null\<close>. The match starts at the leftmost position where there is one.
\<close>

fun group1 :: "rx \<Rightarrow> rx \<Rightarrow> jsstring \<Rightarrow> jsstring option" where
  "group1 front back [] = group1_at front back []"
| "group1 front back (c # cs) =
     (case group1_at front back (c # cs) of Some g \<Rightarrow> Some g | None \<Rightarrow> group1 front back cs)"

fun lit :: "(nat \<Rightarrow> atom) \<Rightarrow> jsstring \<Rightarrow> rx" where
  "lit mk [] = Eps"
| "lit mk (c # cs) = Seq (One (mk c)) (lit mk cs)"

text \<open>
  index.js, line 355:
  \<^verbatim>\<open>/#!\s*(?:\/usr\/bin\/env\s*node|\/usr\/local\/bin\/node|\/usr\/bin\/node)\s*\r?\n/i\<close>
\<close>

definition re_shebang :: rx where
  "re_shebang =
     Seq (lit ChI (ascii ''#!''))
    (Seq (Many Space)
    (Seq (Alt (Seq (lit ChI (ascii ''/usr/bin/env'')) (Seq (Many Space) (lit ChI (ascii ''node''))))
         (Alt (lit ChI (ascii ''/usr/local/bin/node''))
              (lit ChI (ascii ''/usr/bin/node''))))
    (Seq (Many Space)
    (Seq (Alt (One (ChI 13)) Eps)
         (One (ChI 10))))))"

text \<open>
  index.js, line 369: \<^verbatim>\<open>/"%~dp0\\node\.exe"\s+"%~dp0\\(.*)"\s+%\*/\<close>, before and after the
  group. Code unit 34 is the double quote, 92 the backslash.
\<close>

definition re_cmd_head :: rx where
  "re_cmd_head =
     Seq (lit Ch ([34] @ ascii ''%~dp0'' @ [92] @ ascii ''node.exe'' @ [34]))
    (Seq (One Space)
    (Seq (Many Space)
         (lit Ch ([34] @ ascii ''%~dp0'' @ [92]))))"

definition re_cmd_tail :: rx where
  "re_cmd_tail = Seq (One (Ch 34)) (Seq (One Space) (Seq (Many Space) (lit Ch (ascii ''%*''))))"

text \<open>
  index.js, line 370: \<^verbatim>\<open>/"\$basedir\/node"\s+"\$basedir\/(.*)"\s+"\$@"/i\<close>.
\<close>

definition re_mingw_head :: rx where
  "re_mingw_head =
     Seq (lit ChI ([34] @ ascii ''$basedir/node'' @ [34]))
    (Seq (One Space)
    (Seq (Many Space)
         (lit ChI ([34] @ ascii ''$basedir/''))))"

definition re_mingw_tail :: rx where
  "re_mingw_tail =
     Seq (One (ChI 34)) (Seq (One Space) (Seq (Many Space) (lit ChI ([34] @ ascii ''$@'' @ [34]))))"

text \<open>\<^verbatim>\<open>String.prototype.trim\<close>.\<close>

definition trim :: "jsstring \<Rightarrow> jsstring" where
  "trim s = rev (dropWhile is_space (rev (dropWhile is_space s)))"

text \<open>
  \<^verbatim>\<open>arg.split(/\s+/)\<close>: the pieces between the runs of whitespace; a string that starts
  or ends with whitespace has an empty first or last piece, and the empty string has
  the one piece \<^verbatim>\<open>""\<close>. \<open>inws\<close> says that the previous code unit was whitespace.
\<close>

fun split_go :: "bool \<Rightarrow> jsstring \<Rightarrow> jsstring \<Rightarrow> jsstring list" where
  "split_go inws tok [] = [tok]"
| "split_go inws tok (c # cs) =
     (if is_space c then (if inws then split_go True tok cs else tok # split_go True [] cs)
      else split_go False (tok @ [c]) cs)"

definition split_ws :: "jsstring \<Rightarrow> jsstring list" where
  "split_ws s = split_go False [] s"

section \<open>Buffers\<close>

text \<open>
  \<^verbatim>\<open>Buffer.alloc(n)\<close> followed by \<^verbatim>\<open>fs.read(fd, buf, 0, n, 0)\<close>: the first \<open>n\<close> bytes of
  the file, and zeros after them when the file is shorter.
\<close>

definition read_into_buffer :: "nat \<Rightarrow> string \<Rightarrow> nat list" where
  "read_into_buffer n bytes =
     map of_char (take n bytes) @ replicate (n - length bytes) 0"

text \<open>
  \<^verbatim>\<open>buf.toString('utf8')\<close>: the UTF-8 decoder with replacement (U+FFFD for every
  ill-formed part), producing UTF-16 code units. \<open>need\<close> is the number of continuation
  bytes still expected, \<open>cp\<close> the code point so far, \<open>lo\<close> and \<open>hi\<close> the range allowed
  for the next byte.
\<close>

definition utf16 :: "nat \<Rightarrow> nat list" where
  "utf16 cp =
     (if cp < 65536 then [cp]
      else [55296 + (cp - 65536) div 1024, 56320 + (cp - 65536) mod 1024])"

function utf8 :: "nat \<Rightarrow> nat \<Rightarrow> nat \<Rightarrow> nat \<Rightarrow> nat list \<Rightarrow> nat list" where
  "utf8 need cp lo hi [] = (if need = 0 then [] else [65533])"
| "utf8 need cp lo hi (b # bs) =
     (if need = 0 then
        (if b < 128 then b # utf8 0 0 128 191 bs
         else if 194 \<le> b \<and> b \<le> 223 then utf8 1 (b - 192) 128 191 bs
         else if 224 \<le> b \<and> b \<le> 239 then
           utf8 2 (b - 224) (if b = 224 then 160 else 128) (if b = 237 then 159 else 191) bs
         else if 240 \<le> b \<and> b \<le> 244 then
           utf8 3 (b - 240) (if b = 240 then 144 else 128) (if b = 244 then 143 else 191) bs
         else 65533 # utf8 0 0 128 191 bs)
      else if lo \<le> b \<and> b \<le> hi then
        (if need = 1 then utf16 (cp * 64 + (b - 128)) @ utf8 0 0 128 191 bs
         else utf8 (need - 1) (cp * 64 + (b - 128)) 128 191 bs)
      else 65533 # utf8 0 0 128 191 (b # bs))"
  by pat_completeness auto
termination
  by (relation "measure (\<lambda>(need, cp, lo, hi, bs). 2 * length bs + (if need = 0 then 0 else 1))")
     auto

definition toString_utf8 :: "nat list \<Rightarrow> jsstring" where
  "toString_utf8 buf = utf8 0 0 128 191 buf"

text \<open>\<^verbatim>\<open>n.toString()\<close> for a natural number: its decimal digits.\<close>

function toString_nat :: "nat \<Rightarrow> jsstring" where
  "toString_nat n = (if n < 10 then [48 + n] else toString_nat (n div 10) @ [48 + n mod 10])"
  by pat_completeness auto
termination
  by (relation "measure id") auto

declare toString_nat.simps [simp del]

section \<open>The collaborators of index.js\<close>

text \<open>
  \<^verbatim>\<open>pkg.bin\<close> and \<^verbatim>\<open>pkg.main\<close> of a manifest: absent, a string, or any other JSON value,
  of which only the truthiness matters (\<open>null\<close>, \<open>false\<close> and \<open>0\<close> are falsy; objects,
  arrays, \<open>true\<close> and the other numbers are truthy).
\<close>

datatype jsval = JAbsent | JStr jsstring | JNonString bool

record manifest =
  bin :: jsval
  main :: jsval

text \<open>
  What \<^verbatim>\<open>JSON.parse(deets.stdout)\<close> gives: a falsy value, a truthy primitive, or an object
  with its \<^verbatim>\<open>added\<close> and \<^verbatim>\<open>updated\<close> (\<open>Some n\<close>: a truthy value of length \<open>n\<close>).
\<close>

datatype parsed = PFalsy | PPrimitive | PObject "nat option" "nat option"

datatype platform = Posix | Win32

text \<open>
  Everything index.js calls outside itself: Node's \<open>process\<close>, \<open>path\<close> and \<open>fs\<close>, the
  modules \<open>which\<close>, \<open>enquirer\<close>, \<open>dotenv\<close> and \<open>@zkochan/rimraf\<close>, and \<open>./child\<close>,
  \<open>./get-prefix.js\<close> and \<open>./auto-fallback.js\<close> of the repository. Each call is a function
  from its arguments to its outcome; a rejected promise or a thrown exception is \<open>Inl\<close>
  (or \<open>Some\<close> error where nothing is returned).

  \<^item> \<open>readFile\<close> is \<^verbatim>\<open>fs.open\<close>, \<^verbatim>\<open>fs.read\<close> from position 0 and \<^verbatim>\<open>fs.close\<close>: the bytes
    of the file.
  \<^item> \<open>loadManifest\<close> is \<^verbatim>\<open>require\<close> of a package.json followed by reading \<^verbatim>\<open>bin\<close> and
    \<^verbatim>\<open>main\<close>; \<open>None\<close> when either throws.
  \<^item> \<open>child_spawn\<close> resolves with \<^verbatim>\<open>deets.stdout\<close>.
  \<^item> \<open>prompt_allowInstall\<close> is the answer \<^verbatim>\<open>allowInstall\<close> of the confirmation prompt.
  \<^item> \<open>mkRegExp command\<close> is \<^verbatim>\<open>new RegExp(`^${command}(?:\\.cmd)?$`, 'i')\<close> as the
    set of directory entries it matches; \<open>None\<close> when the constructor throws.
  \<^item> \<open>inheritedKeys\<close> are the property names every array inherits from its prototypes
    (\<^verbatim>\<open>find\<close>, \<^verbatim>\<open>constructor\<close>, ...); their values are functions and objects.
  \<^item> \<open>env_rejects_first\<close> says whose rejection \<^verbatim>\<open>Promise.all\<close> reports when both the
    existence check and the environment query reject.
\<close>

record env =
  platform :: platform
  pid :: nat
  cwd :: jsstring
  env_SHELL :: "jsstring option"
  path_delimiter :: jsstring
  path_resolve :: "jsstring \<Rightarrow> jsstring \<Rightarrow> jsstring"
  path_join :: "jsstring list \<Rightarrow> jsstring"
  path_dirname :: "jsstring \<Rightarrow> jsstring"
  path_extname :: "jsstring \<Rightarrow> jsstring"
  stat :: "jsstring \<Rightarrow> jserror + bool"
  readFile :: "jsstring \<Rightarrow> jserror + string"
  loadManifest :: "jsstring \<Rightarrow> manifest option"
  readdir :: "jsstring \<Rightarrow> jserror + jsstring list"
  mkdirSync :: "jsstring \<Rightarrow> jserror option"
  rmdirSync :: "jsstring \<Rightarrow> jserror option"
  rimraf :: "jsstring \<Rightarrow> jserror option"
  which :: "jsstring \<Rightarrow> jserror + jsstring"
  getPrefix :: "jsstring \<Rightarrow> jserror + jsstring option"
  autoFallback :: "jsstring \<Rightarrow> jsstring option \<Rightarrow> argv \<Rightarrow> jsstring option"
  prompt_allowInstall :: "jserror + bool"
  child_escapeArg :: "jsstring option \<Rightarrow> bool \<Rightarrow> jsstring"
  child_exec :: "jsstring option \<Rightarrow> jsstring list \<Rightarrow> jserror + jsstring"
  child_spawn :: "jsstring option \<Rightarrow> jsstring option list \<Rightarrow> jserror + jsstring option"
  child_runCommand :: "jsstring option \<Rightarrow> argv \<Rightarrow> jserror option"
  dotenv_parse :: "jsstring \<Rightarrow> (jsstring \<times> jsstring) list"
  JSON_parse :: "jsstring \<Rightarrow> parsed option"
  mkRegExp :: "jsstring \<Rightarrow> (jsstring \<Rightarrow> bool) option"
  inheritedKeys :: "jsstring list"
  env_rejects_first :: bool

definition ENOENT :: jsstring where
  "ENOENT = ascii ''ENOENT''"

section \<open>The state of the process\<close>

text \<open>
  What index.js does to the world, in the order it does it. \<open>Spawn\<close> is the install
  (\<^verbatim>\<open>child.spawn\<close>), \<open>Exec\<close> a query of the package manager (\<^verbatim>\<open>child.exec\<close>),
  \<open>RunCommand\<close> the requested command as a child, \<open>RunMain\<close> the hand-over to
  \<^verbatim>\<open>Module.runMain()\<close>.
\<close>

datatype printed =
    Message message
  | Fallback jsstring
  | IsNotFound "jsstring list option"
  | Cancelled
  | Installed nat

datatype event =
    Mkdir jsstring
  | OnExit jsstring
  | Rimraf jsstring
  | Exec "jsstring option" "jsstring list"
  | Spawn "jsstring option" "jsstring option list"
  | RunCommand "jsstring option" "jsstring list"
  | YargsReset
  | RunMain
  | Prompt
  | ShowHelp
  | ConsoleLog printed
  | ConsoleError printed

text \<open>
  \<^item> \<open>process_argv\<close>: \<^verbatim>\<open>process.argv\<close>, which always has its first element, and the rest.
  \<^item> \<open>process_exitCode\<close>: \<^verbatim>\<open>process.exitCode\<close>.
  \<^item> \<open>env_PATH\<close>: \<^verbatim>\<open>process.env.PATH\<close>.
  \<^item> \<open>fs_dirs\<close>: the ephemeral prefixes that exist on disk.
  \<^item> \<open>exit_handlers\<close>: the prefixes for which \<^verbatim>\<open>process.on('exit', ...)\<close> has registered
    the removal, in the order of registration.
  \<^item> \<open>trace\<close>: the calls made so far, oldest first.
\<close>

record world =
  process_argv :: "jsstring \<times> jsstring list"
  process_exitCode :: "int option"
  env_PATH :: jsstring
  fs_dirs :: "jsstring set"
  exit_handlers :: "jsstring list"
  trace :: "event list"

type_synonym 'a io = "world \<Rightarrow> 'a result \<times> world"

definition io_return :: "'a \<Rightarrow> 'a io" where
  "io_return x w = (Resolves x, w)"

definition io_reject :: "jserror \<Rightarrow> 'a io" where
  "io_reject err w = (Rejects err, w)"

definition io_exit :: "int \<Rightarrow> 'a io" where
  "io_exit c w = (Exits c, w)"

definition io_lift :: "'a result \<Rightarrow> 'a io" where
  "io_lift r w = (r, w)"

text \<open>\<^verbatim>\<open>m.then(f)\<close>, and a statement followed by the rest of an async function.\<close>

definition io_bind :: "'a io \<Rightarrow> ('a \<Rightarrow> 'b io) \<Rightarrow> 'b io" where
  "io_bind m f w =
     (case m w of
        (Resolves x, w') \<Rightarrow> f x w'
      | (Rejects err, w') \<Rightarrow> (Rejects err, w')
      | (Exits c, w') \<Rightarrow> (Exits c, w')
      | (Diverges, w') \<Rightarrow> (Diverges, w'))"

text \<open>\<^verbatim>\<open>m.catch(h)\<close>, and \<^verbatim>\<open>try { m } catch (err) { h }\<close>.\<close>

definition io_catch :: "'a io \<Rightarrow> (jserror \<Rightarrow> 'a io) \<Rightarrow> 'a io" where
  "io_catch m h w =
     (case m w of
        (Rejects err, w') \<Rightarrow> h err w'
      | (r, w') \<Rightarrow> (r, w'))"

definition io_log :: "event \<Rightarrow> unit io" where
  "io_log ev w = (Resolves (), w\<lparr>trace := trace w @ [ev]\<rparr>)"

definition io_when :: "bool \<Rightarrow> unit io \<Rightarrow> unit io" where
  "io_when b m = (if b then m else io_return ())"

definition argv0 :: "world \<Rightarrow> jsstring" where
  "argv0 w = fst (process_argv w)"

definition argv1 :: "world \<Rightarrow> jsstring option" where
  "argv1 w = (case snd (process_argv w) of [] \<Rightarrow> None | x # _ \<Rightarrow> Some x)"

section \<open>getExistingPath\<close>

text \<open>
  index.js, lines 180--199. The result is the command itself, \<open>false\<close> or \<open>undefined\<close>
  (\<open>None\<close>), or the path found by \<open>which\<close>.
\<close>

definition getExistingPath :: "env \<Rightarrow> jsstring \<Rightarrow> argv \<Rightarrow> jsstring option result" where
  "getExistingPath E cmd opts =
     (if opt_isLocal opts then Resolves (Some cmd)
      else if opt_cmdHadVersion opts \<or> opt_packageRequested opts \<or> opt_ignoreExisting opts
        then Resolves None
      else (case which E cmd of
              Inr p \<Rightarrow> Resolves (Some p)
            | Inl err \<Rightarrow>
                if code err = Some ENOENT then
                  (if opt_install opts = Some False
                   then Rejects (err\<lparr>exitCode := Some 127\<rparr>)
                   else Resolves None)
                else Rejects err))"

section \<open>findNodeScript\<close>

text \<open>\<^verbatim>\<open>a || b || 'index.js'\<close> for the two entries of a manifest.\<close>

fun truthy_val :: "jsval \<Rightarrow> bool" where
  "truthy_val JAbsent = False"
| "truthy_val (JStr s) = (s \<noteq> [])"
| "truthy_val (JNonString b) = b"

definition entry_of :: "manifest \<Rightarrow> jsval" where
  "entry_of pkg =
     (if truthy_val (bin pkg) then bin pkg
      else if truthy_val (main pkg) then main pkg
      else JStr (ascii ''index.js''))"

text \<open>Lines 346--357: the first 400 bytes against the pattern of line 355.\<close>

definition sniff_posix :: "env \<Rightarrow> jsstring \<Rightarrow> jsstring option result" where
  "sniff_posix E existing =
     (case readFile E existing of
        Inl err \<Rightarrow> Rejects err
      | Inr bytes \<Rightarrow>
          Resolves (if search re_shebang (toString_utf8 (read_into_buffer 400 bytes))
                    then Some existing else None))"

text \<open>
  Lines 359--374: the first 1000 bytes, trimmed, against the two shim patterns; the
  script is the group of the match, joined to the directory of the shim.
\<close>

definition sniff_win32 :: "env \<Rightarrow> jsstring \<Rightarrow> jsstring option result" where
  "sniff_win32 E existing =
     (case readFile E existing of
        Inl err \<Rightarrow> Rejects err
      | Inr bytes \<Rightarrow>
          (let str = trim (toString_utf8 (read_into_buffer 1000 bytes));
               m = (case group1 re_cmd_head re_cmd_tail str of
                      Some g \<Rightarrow> Some g
                    | None \<Rightarrow> group1 re_mingw_head re_mingw_tail str)
           in Resolves (case m of
                          None \<Rightarrow> None
                        | Some g \<Rightarrow> Some (path_join E [path_dirname E existing, g]))))"

text \<open>
  index.js, lines 323--378. A manifest can point to a directory whose manifest points
  back, so the recursion is bounded by fuel, and running out of it is \<open>Diverges\<close>. The
  \<^verbatim>\<open>try\<close> of line 332 catches what \<^verbatim>\<open>require\<close> and \<^verbatim>\<open>path.resolve\<close> throw (the latter for an
  entry that is not a string), not the rejection of the recursive call.
\<close>

fun findNodeScript :: "nat \<Rightarrow> env \<Rightarrow> jsstring option \<Rightarrow> bool \<Rightarrow> jsstring option result" where
  "findNodeScript 0 E existing isLocal = Diverges"
| "findNodeScript (Suc n) E existing isLocal =
     (case existing of
        None \<Rightarrow> Resolves None
      | Some ex \<Rightarrow>
          if ex = [] then Resolves None
          else (case stat E ex of
             Inl err \<Rightarrow> Rejects err
           | Inr isDirectory \<Rightarrow>
               if isLocal \<and> path_extname E ex \<in> {ascii ''.js'', ascii ''.cjs''} then
                 Resolves (Some ex)
               else if isLocal \<and> isDirectory then
                 (case loadManifest E (path_resolve E ex (ascii ''package.json'')) of
                    None \<Rightarrow> Rejects (new_Error (CommandNotFound ex))
                  | Some pkg \<Rightarrow>
                      (case entry_of pkg of
                         JStr t \<Rightarrow>
                           (let target = path_resolve E ex t in
                            case findNodeScript n E (Some target) isLocal of
                              Resolves script \<Rightarrow>
                                if truthy_str script then Resolves script
                                else Rejects (new_Error (CommandNotFound target))
                            | r \<Rightarrow> r)
                       | _ \<Rightarrow> Rejects (new_Error (CommandNotFound ex))))
               else if platform E \<noteq> Win32 then sniff_posix E ex
               else sniff_win32 E ex))"


section \<open>Calls of the package manager\<close>

definition io_argv0 :: "jsstring io" where
  "io_argv0 w = (Resolves (argv0 w), w)"

definition io_exec :: "env \<Rightarrow> jsstring option \<Rightarrow> jsstring list \<Rightarrow> jsstring io" where
  "io_exec E cmd args =
     io_bind (io_log (Exec cmd args)) (\<lambda>_. io_lift (of_sum (child_exec E cmd args)))"

text \<open>
  The standard streams handed to \<^verbatim>\<open>child.spawn\<close> (line 249) decide where the installer
  prints, not what index.js does, and are left out of the call.
\<close>

definition io_spawn :: "env \<Rightarrow> jsstring option \<Rightarrow> jsstring option list \<Rightarrow> jsstring option io" where
  "io_spawn E cmd args =
     io_bind (io_log (Spawn cmd args)) (\<lambda>_. io_lift (of_sum (child_spawn E cmd args)))"

text \<open>index.js, lines 124--128.\<close>

definition localBinPath :: "env \<Rightarrow> jsstring \<Rightarrow> jsstring option result" where
  "localBinPath E dir =
     (case getPrefix E dir of
        Inl err \<Rightarrow> Rejects err
      | Inr None \<Rightarrow> Resolves None
      | Inr (Some prefix) \<Rightarrow>
          Resolves (if prefix = [] then None
                    else Some (path_join E [prefix, ascii ''node_modules'', ascii ''.bin''])))"

text \<open>index.js, lines 131--143.\<close>

definition getEnv :: "nat \<Rightarrow> env \<Rightarrow> argv \<Rightarrow> (jsstring \<times> jsstring) list io" where
  "getEnv n E opts =
     io_bind (io_lift (findNodeScript n E (opt_npm opts) True)) (\<lambda>npmPath.
     io_bind io_argv0 (\<lambda>node.
       let args = [ascii ''run'', ascii ''env'', ascii ''--parseable''] in
       io_bind (if truthy_str npmPath
                then io_exec E (Some node) (child_escapeArg E (opt_npm opts) False # args)
                else io_exec E (opt_npm opts) args) (\<lambda>out.
       io_return (dotenv_parse E out))))"

text \<open>index.js, lines 202--218.\<close>

definition getNpmCache :: "nat \<Rightarrow> env \<Rightarrow> argv \<Rightarrow> jsstring io" where
  "getNpmCache n E opts =
     (let args = [ascii ''config'', ascii ''get'', ascii ''cache'', ascii ''--parseable''] @
                 (if truthy_str (opt_userconfig opts)
                  then [ascii ''--userconfig'', child_escapeArg E (opt_userconfig opts) True]
                  else [])
      in io_bind (io_lift (findNodeScript n E (opt_npm opts) True)) (\<lambda>npmPath.
         io_bind io_argv0 (\<lambda>node.
         io_bind (if truthy_str npmPath
                  then io_exec E (Some node) (child_escapeArg E (opt_npm opts) False # args)
                  else io_exec E (opt_npm opts) args) (\<lambda>cache.
         io_return (trim cache)))))"

text \<open>
  index.js, lines 221--229. \<open>specs\<close> is \<^verbatim>\<open>argv.package\<close>: an array, or \<open>undefined\<close>, which
  \<^verbatim>\<open>concat\<close> appends as one element.
\<close>

definition buildArgs :: "jsstring list option \<Rightarrow> jsstring \<Rightarrow> argv \<Rightarrow> jsstring option list" where
  "buildArgs specs prefix opts =
     [Some (ascii ''install'')] @
     (case specs of None \<Rightarrow> [None] | Some xs \<Rightarrow> map Some xs) @
     [Some (ascii ''--global''), Some (ascii ''--dir''), Some prefix] @
     (if truthy_str (opt_userconfig opts)
      then [Some (ascii ''--userconfig''), opt_userconfig opts] else [])"

text \<open>index.js, lines 232--263.\<close>

definition installPackages :: "nat \<Rightarrow> env \<Rightarrow> jsstring list option \<Rightarrow> jsstring \<Rightarrow> argv \<Rightarrow> parsed io" where
  "installPackages n E specs prefix opts =
     (let args = buildArgs specs prefix opts in
      io_bind (io_lift (findNodeScript n E (opt_npm opts) True)) (\<lambda>npmPath.
      io_bind io_argv0 (\<lambda>node.
        let args' = (if truthy_str npmPath
                     then (if platform E = Win32
                           then Some (child_escapeArg E (opt_npm opts) False)
                           else opt_npm opts) # args
                     else args);
            npmPath' = (if truthy_str npmPath then Some node else opt_npm opts);
            npmPath'' = (if platform E = Win32 then Some (child_escapeArg E npmPath' True)
                         else npmPath')
        in (\<lambda>w. case io_spawn E npmPath'' args' w of
              (Resolves stdout, w') \<Rightarrow>
                (Resolves (if truthy_str stdout
                           then (case JSON_parse E (the stdout) of
                                   None \<Rightarrow> PFalsy | Some info \<Rightarrow> info)
                           else PFalsy), w')
            | (Rejects err, w') \<Rightarrow>
                (Rejects (if truthy_exitCode err
                          then err\<lparr>message := InstallFailed specs (the (exitCode err))\<rparr>
                          else err), w')
            | (Exits c, w') \<Rightarrow> (Exits c, w')
            | (Diverges, w') \<Rightarrow> (Diverges, w')))))"

section \<open>ensurePackages\<close>

record install_info =
  info_added :: "nat option"
  info_updated :: "nat option"
  info_prefix :: jsstring
  info_bin :: jsstring

definition io_mkdirSync :: "env \<Rightarrow> jsstring \<Rightarrow> unit io" where
  "io_mkdirSync E p =
     io_bind (io_log (Mkdir p)) (\<lambda>_ w.
       case mkdirSync E p of
         Some err \<Rightarrow> (Rejects err, w)
       | None \<Rightarrow> (Resolves (), w\<lparr>fs_dirs := insert p (fs_dirs w)\<rparr>))"

definition io_on_exit :: "jsstring \<Rightarrow> unit io" where
  "io_on_exit p =
     io_bind (io_log (OnExit p)) (\<lambda>_ w.
       (Resolves (), w\<lparr>exit_handlers := exit_handlers w @ [p]\<rparr>))"

definition io_rimraf :: "env \<Rightarrow> jsstring \<Rightarrow> unit io" where
  "io_rimraf E p =
     io_bind (io_log (Rimraf p)) (\<lambda>_ w.
       case rimraf E p of
         Some err \<Rightarrow> (Rejects err, w)
       | None \<Rightarrow> (Resolves (), w\<lparr>fs_dirs := fs_dirs w - {p}\<rparr>))"

definition prepend_PATH :: "env \<Rightarrow> jsstring \<Rightarrow> unit io" where
  "prepend_PATH E dir w = (Resolves (), w\<lparr>env_PATH := dir @ path_delimiter E @ env_PATH w\<rparr>)"

text \<open>
  index.js, lines 146--177. What the package manager writes below the prefix is not
  tracked in \<open>fs_dirs\<close>. Line 172 assigns a property to the parsed report, which throws
  in strict mode when the report is a primitive.
\<close>

definition ensurePackages :: "nat \<Rightarrow> env \<Rightarrow> jsstring list option \<Rightarrow> argv \<Rightarrow> install_info io" where
  "ensurePackages n E specs opts =
     io_bind (case opt_cache opts of
                Some c \<Rightarrow> if c \<noteq> [] then io_return c else getNpmCache n E opts
              | None \<Rightarrow> getNpmCache n E opts) (\<lambda>cache.
       let prefix = path_join E [cache, ascii ''_npx'', toString_nat (pid E)];
           bins = (if platform E = Win32 then prefix else path_join E [prefix, ascii ''bin''])
       in io_bind (io_mkdirSync E prefix) (\<lambda>_.
          io_bind (io_on_exit prefix) (\<lambda>_.
          io_bind (io_rimraf E bins) (\<lambda>_.
          io_bind (installPackages n E specs prefix opts) (\<lambda>info.
          io_bind (prepend_PATH E bins) (\<lambda>_.
            case info of
              PPrimitive \<Rightarrow> io_reject (TypeError CannotCreateProperty)
            | PFalsy \<Rightarrow>
                io_return \<lparr>info_added = None, info_updated = None,
                           info_prefix = prefix, info_bin = bins\<rparr>
            | PObject a u \<Rightarrow>
                io_return \<lparr>info_added = a, info_updated = u,
                           info_prefix = prefix, info_bin = bins\<rparr>))))))"

section \<open>Process exit\<close>

definition io_rmdirSync :: "env \<Rightarrow> jsstring \<Rightarrow> unit io" where
  "io_rmdirSync E p w =
     (case rmdirSync E p of
        Some err \<Rightarrow> (Rejects err, w)
      | None \<Rightarrow> (Resolves (), w\<lparr>fs_dirs := fs_dirs w - {p}\<rparr>))"

text \<open>The handler of lines 156--163: \<^verbatim>\<open>try { fs.rmdirSync(prefix, ...) } catch (err) { }\<close>.\<close>

definition cleanup :: "env \<Rightarrow> jsstring \<Rightarrow> unit io" where
  "cleanup E prefix = io_catch (io_rmdirSync E prefix) (\<lambda>err. io_return ())"

fun run_handlers :: "env \<Rightarrow> jsstring list \<Rightarrow> unit io" where
  "run_handlers E [] = io_return ()"
| "run_handlers E (p # ps) = io_bind (cleanup E p) (\<lambda>_. run_handlers E ps)"

text \<open>The process exits: every registered handler runs, in the order of registration.\<close>

definition process_exit :: "env \<Rightarrow> unit io" where
  "process_exit E w = run_handlers E (exit_handlers w) w"

section \<open>execCommand\<close>

text \<open>Lines 293--298: the interpreter flags as an array.\<close>

fun nodeArg_list :: "nodearg \<Rightarrow> jsstring list" where
  "nodeArg_list NoNodeArg = []"
| "nodeArg_list (NodeArgStr s) = (if s \<noteq> [] then [s] else [])"
| "nodeArg_list (NodeArgArr xs) = xs"

text \<open>\<^verbatim>\<open>argv.nodeArg && argv.nodeArg.length\<close> of line 281.\<close>

fun nodeArg_length :: "nodearg \<Rightarrow> bool" where
  "nodeArg_length NoNodeArg = False"
| "nodeArg_length (NodeArgStr s) = (s \<noteq> [])"
| "nodeArg_length (NodeArgArr xs) = (xs \<noteq> [])"

definition set_exitCode :: "int \<Rightarrow> unit io" where
  "set_exitCode c w = (Resolves (), w\<lparr>process_exitCode := Some c\<rparr>)"

text \<open>Lines 308--317: the child runs, and its failure is handled.\<close>

definition io_runCommand :: "env \<Rightarrow> jsstring option \<Rightarrow> argv \<Rightarrow> jsstring list \<Rightarrow> unit io" where
  "io_runCommand E cmd argv cmdOpts =
     io_bind (io_log (RunCommand cmd cmdOpts)) (\<lambda>_.
       case child_runCommand E cmd (argv\<lparr>opt_cmdOpts := Some cmdOpts\<rparr>) of
         None \<Rightarrow> io_return ()
       | Some err \<Rightarrow>
           if isOperational err \<and> truthy_exitCode err
           then set_exitCode (the (exitCode err))
           else io_reject err)"

text \<open>Lines 270--280: the script takes over the process.\<close>

definition takeover :: "argv \<Rightarrow> jsstring \<Rightarrow> jsstring list \<Rightarrow> unit io" where
  "takeover argv script argvCmdOpts =
     io_bind (io_when (\<not> opt_noYargs argv) (io_log YargsReset)) (\<lambda>_.
     io_bind (\<lambda>w. (Resolves (), w\<lparr>process_argv := (argv0 w, script # argvCmdOpts)\<rparr>)) (\<lambda>_.
     io_log RunMain))"

text \<open>index.js, lines 266--320.\<close>

definition execCommand :: "nat \<Rightarrow> env \<Rightarrow> jsstring option \<Rightarrow> argv \<Rightarrow> unit io" where
  "execCommand n E existing0 argv =
     io_bind (io_lift (findNodeScript n E existing0 (opt_isLocal argv))) (\<lambda>existing w.
       let argvCmdOpts = (case opt_cmdOpts argv of None \<Rightarrow> [] | Some xs \<Rightarrow> xs) in
       if truthy_str existing \<and> \<not> opt_alwaysSpawn argv \<and> \<not> truthy_nodeArg (opt_nodeArg argv)
          \<and> \<not> truthy_str (opt_shell argv) \<and> existing \<noteq> argv1 w
       then takeover argv (the existing) argvCmdOpts w
       else if \<not> truthy_str existing \<and> truthy_nodeArg (opt_nodeArg argv)
               \<and> nodeArg_length (opt_nodeArg argv)
       then io_reject (new_Error NodeArgUsage) w
       else if truthy_str existing
       then io_runCommand E
              (Some (if platform E = Win32 then child_escapeArg E (Some (argv0 w)) True
                     else argv0 w))
              argv
              (concat (map split_ws (nodeArg_list (opt_nodeArg argv)))
                 @ [the existing] @ argvCmdOpts) w
       else io_runCommand E existing argv argvCmdOpts w)"

section \<open>npx\<close>

text \<open>
  \<^verbatim>\<open>Promise.all\<close> of two promises: the first rejection wins, and when both reject,
  \<open>second_first\<close> says that the second one did so first.
\<close>

fun promise_all :: "bool \<Rightarrow> 'a result \<Rightarrow> 'b result \<Rightarrow> ('a \<times> 'b) result" where
  "promise_all second_first (Rejects e1) (Rejects e2) = Rejects (if second_first then e2 else e1)"
| "promise_all second_first (Rejects e1) r2 = Rejects e1"
| "promise_all second_first r1 (Rejects e2) = Rejects e2"
| "promise_all second_first (Exits c) r2 = Exits c"
| "promise_all second_first r1 (Exits c) = Exits c"
| "promise_all second_first Diverges r2 = Diverges"
| "promise_all second_first r1 Diverges = Diverges"
| "promise_all second_first (Resolves x) (Resolves y) = Resolves (x, y)"

text \<open>
  \<^verbatim>\<open>Object.assign(process.env, newEnv)\<close>, of which only \<open>PATH\<close> is read again.
\<close>

definition assign_env :: "(jsstring \<times> jsstring) list \<Rightarrow> unit io" where
  "assign_env newEnv w =
     (Resolves (),
      (case map_of newEnv (ascii ''PATH'') of
         None \<Rightarrow> w
       | Some p \<Rightarrow> w\<lparr>env_PATH := p\<rparr>))"

text \<open>
  \<^verbatim>\<open>bins[key]\<close> for an array of strings: the element when the key is the decimal form
  of an index, the length, an inherited member, or \<open>undefined\<close>. \<open>OtherValue t\<close> is a
  value that is not a string, with its truthiness.
\<close>

datatype propval = Element jsstring | OtherValue bool | Undefined

definition array_index :: "jsstring list \<Rightarrow> jsstring \<Rightarrow> nat option" where
  "array_index xs key = List.find (\<lambda>i. toString_nat i = key) [0..<length xs]"

definition array_get :: "env \<Rightarrow> jsstring list \<Rightarrow> jsstring option \<Rightarrow> propval" where
  "array_get E xs key =
     (let k = (case key of None \<Rightarrow> ascii ''undefined'' | Some s \<Rightarrow> s) in
      case array_index xs k of
        Some i \<Rightarrow> Element (xs ! i)
      | None \<Rightarrow>
          if k = ascii ''length'' then OtherValue (xs \<noteq> [])
          else if k \<in> set (inheritedKeys E) then OtherValue True
          else Undefined)"

text \<open>
  Lines 95--113: the executable taken from the ephemeral bin directory after the
  install. \<^verbatim>\<open>path.resolve\<close> throws when \<^verbatim>\<open>bins[matching] || bins[0]\<close> is not a string.
\<close>

definition installed_bin :: "env \<Rightarrow> jsstring \<Rightarrow> install_info \<Rightarrow> jsstring option result" where
  "installed_bin E command results =
     (case readdir E (info_bin results) of
        Inl err \<Rightarrow>
          if code err = Some ENOENT then Rejects (new_Error (CommandNotFound command))
          else Rejects err
      | Inr listing \<Rightarrow>
          (let bins = (if platform E = Win32
                       then filter (\<lambda>b. b \<noteq> ascii ''etc'' \<and> b \<noteq> ascii ''node_modules'') listing
                       else listing)
           in case bins of
                [] \<Rightarrow> Rejects (new_Error (CommandNotFound command))
              | first # _ \<Rightarrow>
                  (case mkRegExp E command of
                     None \<Rightarrow> Rejects (SyntaxError (InvalidRegExp command))
                   | Some cmd \<Rightarrow>
                       (let matching = List.find cmd bins in
                        case array_get E bins matching of
                          Element b \<Rightarrow>
                            Resolves (Some (path_resolve E (info_bin results)
                                              (if b \<noteq> [] then b else first)))
                        | OtherValue t \<Rightarrow>
                            if t then Rejects (TypeError InvalidArgType)
                            else Resolves (Some (path_resolve E (info_bin results) first))
                        | Undefined \<Rightarrow>
                            Resolves (Some (path_resolve E (info_bin results) first))))))"

text \<open>
  Lines 41--115 of \<open>npx\<close>: the value of \<open>existing\<close> that line 116 hands to \<open>execCommand\<close>.
  The elapsed time of the message of line 85 is left out. Line 93 reads
  \<^verbatim>\<open>argv.package.length\<close> only when a command was given and \<^verbatim>\<open>argv.call\<close> was not, and then
  line 29 has made sure that \<^verbatim>\<open>argv.package\<close> is an array.
\<close>

definition npx_existing :: "nat \<Rightarrow> env \<Rightarrow> argv \<Rightarrow> jsstring option io" where
  "npx_existing n E argv =
     io_bind (io_lift (localBinPath E (cwd E))) (\<lambda>local.
     io_bind (case local of None \<Rightarrow> io_return () | Some l \<Rightarrow> prepend_PATH E l) (\<lambda>_.
     io_bind (\<lambda>w.
        let r1 = (case opt_command argv of
                    None \<Rightarrow> Resolves None
                  | Some c \<Rightarrow> if c = [] then Resolves None else getExistingPath E c argv)
        in if truthy_str (opt_call argv) \<and> local \<noteq> None
           then (case getEnv n E argv w of
                   (Resolves newEnv, w') \<Rightarrow>
                      (promise_all (env_rejects_first E) r1 (Resolves (Some newEnv)), w')
                 | (Rejects err, w') \<Rightarrow> (promise_all (env_rejects_first E) r1 (Rejects err), w')
                 | (Exits c, w') \<Rightarrow> (promise_all (env_rejects_first E) r1 (Exits c), w')
                 | (Diverges, w') \<Rightarrow> (promise_all (env_rejects_first E) r1 Diverges, w'))
           else (promise_all (env_rejects_first E) r1 (Resolves None), w)) (\<lambda>(existing, newEnv).
     io_bind (case newEnv of None \<Rightarrow> io_return () | Some e \<Rightarrow> assign_env e) (\<lambda>_.
       if (\<not> truthy_str existing \<and> \<not> truthy_str (opt_call argv)) \<or> opt_packageRequested argv
       then
         io_bind (io_when (opt_no argv)
                    (io_bind (io_log (ConsoleLog (IsNotFound (opt_package argv))))
                       (\<lambda>_. io_exit 1))) (\<lambda>_.
         io_bind (io_when (\<not> opt_yes argv)
                    (io_bind (io_log Prompt) (\<lambda>_.
                     io_bind (io_lift (of_sum (prompt_allowInstall E))) (\<lambda>allowInstall.
                     io_when (\<not> allowInstall)
                       (io_bind (io_log (ConsoleLog Cancelled)) (\<lambda>_. io_exit 1)))))) (\<lambda>_.
         io_bind (ensurePackages n E (opt_package argv) argv) (\<lambda>results.
         io_bind (case (info_added results, info_updated results) of
                    (Some a, Some u) \<Rightarrow>
                       io_when (\<not> opt_q argv) (io_log (ConsoleError (Installed (a + u))))
                  | _ \<Rightarrow> io_return ()) (\<lambda>_.
           if truthy_str (opt_command argv) \<and> \<not> truthy_str existing
              \<and> \<not> opt_packageRequested argv
              \<and> (case opt_package argv of None \<Rightarrow> False | Some ps \<Rightarrow> length ps = 1)
           then io_lift (installed_bin E (the (opt_command argv)) results)
           else io_return existing))))
       else io_return existing))))"

text \<open>Lines 117--120: the handler of the \<^verbatim>\<open>try\<close> of line 38.\<close>

definition npx_catch :: "argv \<Rightarrow> jserror \<Rightarrow> unit io" where
  "npx_catch argv err =
     io_bind (io_when (\<not> opt_q argv) (io_log (ConsoleError (Message (message err))))) (\<lambda>_.
     set_exitCode (case exitCode err of None \<Rightarrow> 1 | Some c \<Rightarrow> if c \<noteq> 0 then c else 1))"

text \<open>index.js, lines 15--121.\<close>

definition npx :: "nat \<Rightarrow> env \<Rightarrow> argv \<Rightarrow> unit io" where
  "npx n E argv =
     (case opt_shell_auto_fallback argv of
        Some shell \<Rightarrow>
          (if truthy_str (autoFallback E shell (env_SHELL E) argv)
           then io_log (ConsoleLog (Fallback (the (autoFallback E shell (env_SHELL E) argv))))
           else set_exitCode 1)
      | None \<Rightarrow>
          if \<not> truthy_str (opt_call argv)
             \<and> (\<not> truthy_str (opt_command argv) \<or> opt_package argv = None)
          then io_bind (io_when (\<not> opt_q argv)
                          (io_bind (io_log (ConsoleError (Message MustSupplyCommand)))
                             (\<lambda>_. io_log ShowHelp))) (\<lambda>_.
               set_exitCode 1)
          else io_catch
                 (io_bind (npx_existing n E argv) (\<lambda>existing. execCommand n E existing argv))
                 (npx_catch argv))"

section \<open>Concrete scenarios\<close>

text \<open>
  A small POSIX machine for running the model on concrete inputs. Its \<open>path\<close> functions
  are those of Node on paths without \<^verbatim>\<open>.\<close> and \<^verbatim>\<open>..\<close> segments and without doubled or
  trailing slashes (code unit 47 is the slash, 46 the dot); its pattern constructor is
  the one of Node on commands made of letters, digits, \<^verbatim>\<open>-\<close> and \<^verbatim>\<open>_\<close>.
\<close>

definition posix_join :: "jsstring list \<Rightarrow> jsstring" where
  "posix_join xs = (case xs of [] \<Rightarrow> ascii ''.'' | x # ys \<Rightarrow> foldl (\<lambda>a b. a @ [47] @ b) x ys)"

definition posix_resolve :: "jsstring \<Rightarrow> jsstring \<Rightarrow> jsstring" where
  "posix_resolve a b = (case b of [] \<Rightarrow> a | c # _ \<Rightarrow> if c = 47 then b else a @ [47] @ b)"

definition posix_basename :: "jsstring \<Rightarrow> jsstring" where
  "posix_basename p = rev (takeWhile (\<lambda>c. c \<noteq> 47) (rev p))"

definition posix_dirname :: "jsstring \<Rightarrow> jsstring" where
  "posix_dirname p =
     (let d = rev (drop 1 (dropWhile (\<lambda>c. c \<noteq> 47) (rev p)))
      in if d = [] then (if 47 \<in> set p then [47] else [46]) else d)"

definition posix_extname :: "jsstring \<Rightarrow> jsstring" where
  "posix_extname p =
     (let b = posix_basename p
      in if 46 \<in> set (drop 1 b) then 46 # rev (takeWhile (\<lambda>c. c \<noteq> 46) (rev b)) else [])"

definition plain_RegExp :: "jsstring \<Rightarrow> (jsstring \<Rightarrow> bool) option" where
  "plain_RegExp command =
     Some (\<lambda>b. map upper b = map upper command \<or> map upper b = map upper (command @ ascii ''.cmd''))"

definition sys_error :: "jsstring \<Rightarrow> jserror" where
  "sys_error c = \<lparr>code = Some c, message = Raw c, exitCode = None, isOperational = False\<rparr>"

definition child_error :: "int \<Rightarrow> jserror" where
  "child_error c =
     \<lparr>code = None, message = Raw (ascii ''Command failed''), exitCode = Some c, isOperational = True\<rparr>"

text \<open>The machine with an empty disk, nothing on the search path and no project.\<close>

definition env0 :: env where
  "env0 =
     \<lparr>platform = Posix, pid = 4242, cwd = ascii ''/home/u/proj'', env_SHELL = None,
      path_delimiter = ascii '':'', path_resolve = posix_resolve, path_join = posix_join,
      path_dirname = posix_dirname, path_extname = posix_extname,
      stat = (\<lambda>p. Inl (sys_error ENOENT)),
      readFile = (\<lambda>p. Inl (sys_error ENOENT)),
      loadManifest = (\<lambda>p. None),
      readdir = (\<lambda>p. Inl (sys_error ENOENT)),
      mkdirSync = (\<lambda>p. None), rmdirSync = (\<lambda>p. None), rimraf = (\<lambda>p. None),
      which = (\<lambda>c. Inl (sys_error ENOENT)),
      getPrefix = (\<lambda>d. Inr None),
      autoFallback = (\<lambda>sh cur opts. None),
      prompt_allowInstall = Inr True,
      child_escapeArg = (\<lambda>a q. case a of None \<Rightarrow> [] | Some s \<Rightarrow> s),
      child_exec = (\<lambda>c a. Inr []),
      child_spawn = (\<lambda>c a. Inr None),
      child_runCommand = (\<lambda>c opts. None),
      dotenv_parse = (\<lambda>s. []),
      JSON_parse = (\<lambda>s. None),
      mkRegExp = plain_RegExp,
      inheritedKeys = [ascii ''constructor'', ascii ''find'', ascii ''sort'', ascii ''toString''],
      env_rejects_first = False\<rparr>"

text \<open>\<^verbatim>\<open>npx cowsay\<close> as parse-args.js hands it over.\<close>

definition argv_cowsay :: argv where
  "argv_cowsay =
     \<lparr>opt_shell_auto_fallback = None, opt_call = None, opt_command = Some (ascii ''cowsay''),
      opt_package = Some [ascii ''cowsay''], opt_q = False, opt_no = False, opt_yes = True,
      opt_packageRequested = False, opt_isLocal = False, opt_cmdHadVersion = False,
      opt_ignoreExisting = False, opt_install = None, opt_cache = Some (ascii ''/tmp/cache''),
      opt_userconfig = None, opt_npm = Some (ascii ''/opt/pnpm/bin/pnpm.cjs''),
      opt_alwaysSpawn = False, opt_nodeArg = NoNodeArg, opt_shell = None, opt_noYargs = True,
      opt_cmdOpts = Some [ascii ''hello'']\<rparr>"

section \<open>Vocabulary of the statements\<close>

text \<open>
  Equality with an ASCII literal up to the case of letters, strings of whitespace, and
  what the pattern of line 355 looks for: \<^verbatim>\<open>#!\<close>, whitespace, one of the three
  interpreter paths (\<^verbatim>\<open>env\<close> and \<^verbatim>\<open>node\<close> separated by any whitespace, also none),
  whitespace, and a line feed, anywhere in the text.
\<close>

definition ci_eq :: "jsstring \<Rightarrow> string \<Rightarrow> bool" where
  "ci_eq w s \<longleftrightarrow> map upper w = map upper (ascii s)"

definition spaces :: "jsstring \<Rightarrow> bool" where
  "spaces w \<longleftrightarrow> (\<forall>c \<in> set w. is_space c)"

definition interpreter_path :: "jsstring \<Rightarrow> bool" where
  "interpreter_path p \<longleftrightarrow>
     (\<exists>e sp nd. p = e @ sp @ nd \<and> ci_eq e ''/usr/bin/env'' \<and> spaces sp \<and> ci_eq nd ''node'') \<or>
     ci_eq p ''/usr/local/bin/node'' \<or> ci_eq p ''/usr/bin/node''"

definition has_directive :: "jsstring \<Rightarrow> bool" where
  "has_directive text \<longleftrightarrow>
     (\<exists>pre w1 p w2 post.
        text = pre @ ascii ''#!'' @ w1 @ p @ w2 @ [10] @ post \<and>
        spaces w1 \<and> interpreter_path p \<and> spaces w2)"

text \<open>
  The claim's reading, for comparison with the code: the leading line of the file, up to
  its line feed, is one of the three directives, in any case of letters, with optional
  whitespace around it (a carriage return before the line feed is whitespace).
\<close>

fun accepts :: "rx \<Rightarrow> jsstring \<Rightarrow> bool" where
  "accepts r [] = nullable r"
| "accepts r (c # cs) = accepts (deriv c r) cs"

definition re_directive_line :: rx where
  "re_directive_line =
     Seq (Many Space)
    (Seq (Alt (lit ChI (ascii ''#!/usr/bin/env node''))
         (Alt (lit ChI (ascii ''#!/usr/local/bin/node''))
              (lit ChI (ascii ''#!/usr/bin/node''))))
         (Many Space))"

definition spec_leading_directive :: "string \<Rightarrow> bool" where
  "spec_leading_directive bytes =
     accepts re_directive_line (takeWhile (\<lambda>c. c \<noteq> 10) (toString_utf8 (map of_char bytes)))"

text \<open>The machine of \<open>env0\<close> with one regular file on its disk.\<close>

definition env_file :: "jsstring \<Rightarrow> string \<Rightarrow> env" where
  "env_file path bytes =
     env0\<lparr>stat := (\<lambda>p. if p = path then Inr False else Inl (sys_error ENOENT)),
          readFile := (\<lambda>p. if p = path then Inr bytes else Inl (sys_error ENOENT))\<rparr>"

definition path_tool :: jsstring where
  "path_tool = ascii ''/usr/local/bin/tool''"

text \<open>
  Two package directories: \<^verbatim>\<open>/srv/app\<close> with a manifest that has neither \<^verbatim>\<open>bin\<close> nor \<^verbatim>\<open>main\<close>
  and an \<^verbatim>\<open>index.js\<close>, and \<^verbatim>\<open>/srv/app\<close> with a manifest whose \<^verbatim>\<open>bin\<close> is the script
  \<^verbatim>\<open>bin/run\<close>.
\<close>

definition dir_app :: jsstring where
  "dir_app = ascii ''/srv/app''"

definition env_bare_package :: env where
  "env_bare_package =
     env0\<lparr>stat := (\<lambda>p. if p = ascii ''/srv/app'' then Inr True
                        else if p = ascii ''/srv/app/index.js'' then Inr False
                        else Inl (sys_error ENOENT)),
          loadManifest := (\<lambda>p. if p = ascii ''/srv/app/package.json''
                                then Some \<lparr>bin = JAbsent, main = JAbsent\<rparr> else None)\<rparr>"

definition env_bin_package :: env where
  "env_bin_package =
     env0\<lparr>stat := (\<lambda>p. if p = ascii ''/srv/app'' then Inr True
                        else if p = ascii ''/srv/app/bin/run'' then Inr False
                        else Inl (sys_error ENOENT)),
          readFile := (\<lambda>p. if p = ascii ''/srv/app/bin/run''
                            then Inr (''#!/usr/bin/env node'' @ [CHR 0x0A])
                            else Inl (sys_error ENOENT)),
          loadManifest := (\<lambda>p. if p = ascii ''/srv/app/package.json''
                                then Some \<lparr>bin = JStr (ascii ''bin/run''), main = JAbsent\<rparr>
                                else None)\<rparr>"

text \<open>
  The calls a run adds to the trace, the arguments after the command
  (\<^verbatim>\<open>argv.cmdOpts || []\<close>), and the command of a child that runs a script: the current
  runtime binary (line 287).
\<close>

definition new_events :: "world \<Rightarrow> 'a result \<times> world \<Rightarrow> event list" where
  "new_events w rw = drop (length (trace w)) (trace (snd rw))"

definition userArgs :: "argv \<Rightarrow> jsstring list" where
  "userArgs argv = (case opt_cmdOpts argv of None \<Rightarrow> [] | Some xs \<Rightarrow> xs)"

definition runtime_cmd :: "env \<Rightarrow> world \<Rightarrow> jsstring option" where
  "runtime_cmd E w =
     Some (if platform E = Win32 then child_escapeArg E (Some (argv0 w)) True else argv0 w)"

text \<open>The machine with one interpreter script on its disk, and the process at its start.\<close>

definition env_script :: env where
  "env_script = env_file path_tool ''#!/usr/bin/env node\<newline>console.log(1)\<newline>''"

definition world0 :: world where
  "world0 =
     \<lparr>process_argv = (ascii ''/usr/bin/node'', [ascii ''/opt/npx/index.js'', ascii ''cowsay'', ascii ''hello'']),
      process_exitCode = None, env_PATH = ascii ''/usr/bin'', fs_dirs = {}, exit_handlers = [],
      trace = []\<rparr>"

text \<open>
  \<open>is_array_key E xs k\<close>: \<open>k\<close> names a property of the array \<open>xs\<close> (an index, the length
  or an inherited member). \<open>listed_bins\<close> is the listing after the filter of lines
  105--107.
\<close>

definition is_array_key :: "env \<Rightarrow> jsstring list \<Rightarrow> jsstring \<Rightarrow> bool" where
  "is_array_key E xs k \<longleftrightarrow>
     array_index xs k \<noteq> None \<or> k = ascii ''length'' \<or> k \<in> set (inheritedKeys E)"

definition listed_bins :: "env \<Rightarrow> jsstring list \<Rightarrow> jsstring list" where
  "listed_bins E listing =
     (if platform E = Win32
      then filter (\<lambda>b. b \<noteq> ascii ''etc'' \<and> b \<noteq> ascii ''node_modules'') listing
      else listing)"

text \<open>
  The result of a provisioning run with cache \<^verbatim>\<open>/tmp/cache\<close> and process 4242, and two bin
  directories: one with \<^verbatim>\<open>cowthink\<close> and \<^verbatim>\<open>cowsay\<close>, one with \<^verbatim>\<open>a\<close> and \<^verbatim>\<open>1\<close>.
\<close>

definition info_4242 :: install_info where
  "info_4242 =
     \<lparr>info_added = None, info_updated = None, info_prefix = ascii ''/tmp/cache/_npx/4242'',
      info_bin = ascii ''/tmp/cache/_npx/4242/bin''\<rparr>"

definition env_cows :: env where
  "env_cows = env0\<lparr>readdir := (\<lambda>p. Inr [ascii ''cowthink'', ascii ''cowsay''])\<rparr>"

definition env_numbered :: env where
  "env_numbered = env0\<lparr>readdir := (\<lambda>p. Inr [ascii ''a'', ascii ''1''])\<rparr>"

text \<open>
  \<open>emits P m\<close>: whatever the state, \<open>m\<close> only adds calls to the trace, and each of them
  satisfies \<open>P\<close>.
\<close>

fun is_Spawn :: "event \<Rightarrow> bool" where
  "is_Spawn (Spawn c a) = True"
| "is_Spawn e = False"

fun is_RunCommand :: "event \<Rightarrow> bool" where
  "is_RunCommand (RunCommand c a) = True"
| "is_RunCommand e = False"

definition emits :: "(event \<Rightarrow> bool) \<Rightarrow> 'a io \<Rightarrow> bool" where
  "emits P m \<longleftrightarrow> (\<forall>w. \<exists>evs. trace (snd (m w)) = trace w @ evs \<and> (\<forall>e \<in> set evs. P e))"

text \<open>
  \<^verbatim>\<open>err.exitCode || 1\<close> of line 119, and the options with which \<open>npx\<close> gets past the
  shell fallback and the check of line 29.
\<close>

definition exit_status :: "jserror \<Rightarrow> int" where
  "exit_status err = (case exitCode err of None \<Rightarrow> 1 | Some c \<Rightarrow> if c \<noteq> 0 then c else 1)"

definition main_path :: "argv \<Rightarrow> bool" where
  "main_path argv \<longleftrightarrow>
     opt_shell_auto_fallback argv = None \<and>
     \<not> (\<not> truthy_str (opt_call argv) \<and> (\<not> truthy_str (opt_command argv) \<or> opt_package argv = None))"

text \<open>
  The machine where \<^verbatim>\<open>cowsay\<close> is a binary on the search path that exits with code 3.
\<close>

definition env_child_fails :: env where
  "env_child_fails =
     env0\<lparr>which := (\<lambda>c. Inr (ascii ''/usr/bin/cowsay'')),
          stat := (\<lambda>p. Inr False),
          readFile := (\<lambda>p. Inr ''binary''),
          child_runCommand := (\<lambda>c opts. Some (child_error 3))\<rparr>"

text \<open>
  The installs among the calls of a trace, the error that lines 256--261 rethrow, and
  \<open>installs_once E specs m\<close>: \<open>m\<close> only adds calls to the trace, at most one of them an
  install, and when that install fails \<open>m\<close> rejects with the rethrown error right after
  it.
\<close>

fun spawns :: "event list \<Rightarrow> (jsstring option \<times> jsstring option list) list" where
  "spawns [] = []"
| "spawns (Spawn c a # es) = (c, a) # spawns es"
| "spawns (e # es) = spawns es"

definition install_failure :: "jsstring list option \<Rightarrow> jserror \<Rightarrow> jserror" where
  "install_failure specs err =
     (if truthy_exitCode err then err\<lparr>message := InstallFailed specs (the (exitCode err))\<rparr>
      else err)"

definition installs_once :: "env \<Rightarrow> jsstring list option \<Rightarrow> 'a io \<Rightarrow> bool" where
  "installs_once E specs m \<longleftrightarrow>
     (\<forall>w. \<exists>evs. trace (snd (m w)) = trace w @ evs \<and>
        (spawns evs = [] \<or>
         (\<exists>c a pre post. evs = pre @ Spawn c a # post \<and> spawns pre = [] \<and> spawns post = [] \<and>
            (\<forall>err. child_spawn E c a = Inl err \<longrightarrow>
               post = [] \<and> fst (m w) = Rejects (install_failure specs err)))))"

text \<open>
  The machine inside a project, with the package manager at \<^verbatim>\<open>/opt/pnpm/bin/pnpm.cjs\<close>,
  where every install exits with code 42.
\<close>

definition env_install_fails :: env where
  "env_install_fails =
     env0\<lparr>stat := (\<lambda>p. if p = ascii ''/opt/pnpm/bin/pnpm.cjs'' then Inr False
                        else Inl (sys_error ENOENT)),
          getPrefix := (\<lambda>d. Inr (Some d)),
          child_spawn := (\<lambda>c a. Inl (child_error 42))\<rparr>"

section \<open>The existence check\<close>

text \<open>
  C5. For every command name \<open>getExistingPath\<close> has one of these outcomes, and the
  theorem says when each occurs. A request marked local returns the command unchanged,
  whatever the search path holds. Otherwise, unless the lookup is skipped because a
  version or a package was requested or existing commands are ignored (then nothing is
  found and nothing fails): the path \<open>which\<close> found; the ENOENT error of \<open>which\<close> with exit
  code 127, exactly when installation is disabled (\<^verbatim>\<open>install === false\<close>), and no error and
  no path when it is not; any other error of \<open>which\<close> unchanged.
\<close>

theorem getExistingPath_outcomes:
  "(opt_isLocal opts \<longrightarrow> getExistingPath E cmd opts = Resolves (Some cmd))
 \<and> (getExistingPath E cmd opts = Resolves (Some p) \<longleftrightarrow>
       (opt_isLocal opts \<and> p = cmd) \<or>
       (\<not> opt_isLocal opts
          \<and> \<not> (opt_cmdHadVersion opts \<or> opt_packageRequested opts \<or> opt_ignoreExisting opts)
          \<and> which E cmd = Inr p))
 \<and> (getExistingPath E cmd opts = Rejects e \<longleftrightarrow>
       \<not> opt_isLocal opts
       \<and> \<not> (opt_cmdHadVersion opts \<or> opt_packageRequested opts \<or> opt_ignoreExisting opts)
       \<and> (\<exists>e0. which E cmd = Inl e0 \<and>
             (if code e0 = Some ENOENT
              then opt_install opts = Some False \<and> e = e0\<lparr>exitCode := Some 127\<rparr>
              else e = e0)))
 \<and> (getExistingPath E cmd opts = Resolves None \<longleftrightarrow>
       \<not> opt_isLocal opts \<and>
       (opt_cmdHadVersion opts \<or> opt_packageRequested opts \<or> opt_ignoreExisting opts \<or>
        (\<exists>e0. which E cmd = Inl e0 \<and> code e0 = Some ENOENT \<and> opt_install opts \<noteq> Some False)))
 \<and> getExistingPath E cmd opts \<noteq> Diverges
 \<and> (\<forall>c. getExistingPath E cmd opts \<noteq> Exits c)"
  by (auto simp: getExistingPath_def split: sum.splits)

text \<open>
  With nothing on the search path and installation disabled, \<^verbatim>\<open>cowsay\<close> is rejected with
  the ENOENT error and exit code 127.
\<close>

theorem getExistingPath_outcomes_witness:
  "getExistingPath env0 (ascii ''cowsay'') (argv_cowsay\<lparr>opt_install := Some False\<rparr>)
     = Rejects ((sys_error ENOENT)\<lparr>exitCode := Some 127\<rparr>)"
  using getExistingPath_outcomes
          [of "argv_cowsay\<lparr>opt_install := Some False\<rparr>" env0 "ascii ''cowsay''"
              "[]" "(sys_error ENOENT)\<lparr>exitCode := Some 127\<rparr>"]
  by (simp add: env0_def argv_cowsay_def sys_error_def)

section \<open>The pattern matcher\<close>

text \<open>
  The matcher decides the language of a pattern: \<open>search\<close> finds a match exactly when
  some part of the string is in the language.
\<close>

lemma lang_alt: "lang (alt r s) = lang r \<union> lang s"
  by (induction r s rule: alt.induct) auto

lemma lang_seq: "lang (seq r s) = lang (Seq r s)"
  by (induction r s rule: seq.induct) auto

lemma nullable_iff: "nullable r \<longleftrightarrow> [] \<in> lang r"
  by (induction r) auto

lemma lang_deriv: "lang (deriv c r) = {w. c # w \<in> lang r}"
proof (induction r)
  case (Seq r s)
  show ?case
  proof (rule set_eqI)
    fix w
    have "w \<in> lang (deriv c (Seq r s)) \<longleftrightarrow>
          (\<exists>u v. w = u @ v \<and> c # u \<in> lang r \<and> v \<in> lang s) \<or> ([] \<in> lang r \<and> c # w \<in> lang s)"
      using Seq by (auto simp: lang_alt lang_seq nullable_iff)
    also have "\<dots> \<longleftrightarrow> c # w \<in> lang (Seq r s)"
      by (auto simp: Cons_eq_append_conv)
    finally show "w \<in> lang (deriv c (Seq r s)) \<longleftrightarrow> w \<in> {w. c # w \<in> lang (Seq r s)}"
      by simp
  qed
qed (auto simp: lang_alt)

lemma pmatch_Fail: "\<not> pmatch Fail s"
  by (cases s) auto

lemma pmatch_iff: "pmatch r s \<longleftrightarrow> (\<exists>u v. s = u @ v \<and> u \<in> lang r)"
proof (induction s arbitrary: r)
  case Nil
  show ?case by (simp add: nullable_iff)
next
  case (Cons c cs)
  have "pmatch r (c # cs) \<longleftrightarrow> [] \<in> lang r \<or> pmatch (deriv c r) cs"
    by (auto simp: Let_def nullable_iff pmatch_Fail)
  also have "\<dots> \<longleftrightarrow> [] \<in> lang r \<or> (\<exists>u v. cs = u @ v \<and> c # u \<in> lang r)"
    by (simp add: Cons lang_deriv)
  also have "\<dots> \<longleftrightarrow> (\<exists>u v. c # cs = u @ v \<and> u \<in> lang r)"
    by (auto simp: Cons_eq_append_conv)
  finally show ?case .
qed

lemma search_iff: "search r s \<longleftrightarrow> (\<exists>p u v. s = p @ u @ v \<and> u \<in> lang r)"
proof (induction s)
  case Nil
  show ?case by (simp add: nullable_iff)
next
  case (Cons c cs)
  have "search r (c # cs) \<longleftrightarrow> pmatch r (c # cs) \<or> search r cs"
    by simp
  also have "\<dots> \<longleftrightarrow> (\<exists>u v. c # cs = u @ v \<and> u \<in> lang r) \<or> (\<exists>p u v. cs = p @ u @ v \<and> u \<in> lang r)"
    by (simp only: pmatch_iff Cons)
  also have "\<dots> \<longleftrightarrow> (\<exists>p u v. c # cs = p @ u @ v \<and> u \<in> lang r)"
  proof
    assume "(\<exists>u v. c # cs = u @ v \<and> u \<in> lang r) \<or> (\<exists>p u v. cs = p @ u @ v \<and> u \<in> lang r)"
    then show "\<exists>p u v. c # cs = p @ u @ v \<and> u \<in> lang r"
    proof
      assume "\<exists>u v. c # cs = u @ v \<and> u \<in> lang r"
      then obtain u v where "c # cs = [] @ u @ v" "u \<in> lang r" by auto
      then show ?thesis by blast
    next
      assume "\<exists>p u v. cs = p @ u @ v \<and> u \<in> lang r"
      then obtain p u v where "c # cs = (c # p) @ u @ v" "u \<in> lang r" by auto
      then show ?thesis by blast
    qed
  next
    assume "\<exists>p u v. c # cs = p @ u @ v \<and> u \<in> lang r"
    then obtain p u v where *: "c # cs = p @ u @ v" "u \<in> lang r" by blast
    show "(\<exists>u v. c # cs = u @ v \<and> u \<in> lang r) \<or> (\<exists>p u v. cs = p @ u @ v \<and> u \<in> lang r)"
    proof (cases p)
      case Nil
      with * show ?thesis by auto
    next
      case (Cons a p')
      with * have "cs = p' @ u @ v" by simp
      with * show ?thesis by blast
    qed
  qed
  finally show ?case .
qed

lemma lang_One_Seq: "lang (Seq (One a) r) = {c # v | c v. am a c \<and> v \<in> lang r}"
proof (rule set_eqI)
  fix w
  show "w \<in> lang (Seq (One a) r) \<longleftrightarrow> w \<in> {c # v | c v. am a c \<and> v \<in> lang r}"
  proof
    assume "w \<in> lang (Seq (One a) r)"
    then show "w \<in> {c # v | c v. am a c \<and> v \<in> lang r}" by auto
  next
    assume "w \<in> {c # v | c v. am a c \<and> v \<in> lang r}"
    then obtain c v where "w = [c] @ v" "am a c" "v \<in> lang r" by auto
    then show "w \<in> lang (Seq (One a) r)" by (simp only: lang.simps mem_Collect_eq) blast
  qed
qed

lemma lang_lit_ChI: "lang (lit ChI s) = {w. map upper w = map upper s}"
proof (induction s)
  case Nil
  show ?case by auto
next
  case (Cons c cs)
  have "lang (lit ChI (c # cs)) = {x # v | x v. upper x = upper c \<and> map upper v = map upper cs}"
    using Cons by (simp only: lit.simps lang_One_Seq am.simps mem_Collect_eq)
  also have "\<dots> = {w. map upper w = map upper (c # cs)}"
    by (auto simp: map_eq_Cons_conv)
  finally show ?case .
qed

lemma lang_lit_Ch: "lang (lit Ch s) = {s}"
proof (induction s)
  case Nil
  show ?case by simp
next
  case (Cons c cs)
  have "lang (lit Ch (c # cs)) = {x # v | x v. x = c \<and> v = cs}"
    using Cons by (simp only: lit.simps lang_One_Seq am.simps mem_Collect_eq singleton_iff)
  then show ?case by auto
qed

section \<open>The interpreter directive\<close>

lemma upper_nonletter: "a < 65 \<Longrightarrow> upper c = upper a \<longleftrightarrow> c = a"
  by (auto simp: upper_def)

lemma lang_One_nonletter: "a < 65 \<Longrightarrow> lang (One (ChI a)) = {[a]}"
  by (auto simp: upper_nonletter)

lemma ci_hashbang: "map upper w = map upper (ascii ''#!'') \<longleftrightarrow> w = ascii ''#!''"
proof -
  have "map upper w = [upper 35, upper 33] \<longleftrightarrow> w = [35, 33]"
    by (auto simp: map_eq_Cons_conv upper_nonletter)
  then show ?thesis by (simp add: ascii_def)
qed

lemma lang_Seq_iff: "w \<in> lang (Seq r s) \<longleftrightarrow> (\<exists>u v. w = u @ v \<and> u \<in> lang r \<and> v \<in> lang s)"
  by auto

lemma lang_Many_Space: "w \<in> lang (Many Space) \<longleftrightarrow> spaces w"
  by (simp add: spaces_def)

lemma lang_eol: "w \<in> lang (Seq (Alt (One (ChI 13)) Eps) (One (ChI 10))) \<longleftrightarrow> w = [13, 10] \<or> w = [10]"
proof -
  have "lang (One (ChI 13)) = {[13]}"
    by (rule lang_One_nonletter) simp
  then have "lang (Alt (One (ChI 13)) Eps) = {[13], []}"
    by (simp only: lang.simps(5) lang.simps(2)) auto
  moreover have "lang (One (ChI 10)) = {[10]}"
    by (rule lang_One_nonletter) simp
  ultimately have "w \<in> lang (Seq (Alt (One (ChI 13)) Eps) (One (ChI 10))) \<longleftrightarrow>
      (\<exists>u v. w = u @ v \<and> u \<in> {[13], []} \<and> v \<in> {[10]})"
    by (simp only: lang_Seq_iff)
  also have "\<dots> \<longleftrightarrow> w = [13, 10] \<or> w = [10]"
    by auto
  finally show ?thesis .
qed

lemma lang_env:
  "p \<in> lang (Seq (lit ChI (ascii ''/usr/bin/env'')) (Seq (Many Space) (lit ChI (ascii ''node''))))
   \<longleftrightarrow> (\<exists>e sp nd. p = e @ sp @ nd \<and> ci_eq e ''/usr/bin/env'' \<and> spaces sp \<and> ci_eq nd ''node'')"
proof -
  have "\<And>A S B. (\<exists>u v. p = u @ v \<and> A u \<and> (\<exists>ua va. v = ua @ va \<and> S ua \<and> B va))
      \<longleftrightarrow> (\<exists>e sp nd. p = e @ sp @ nd \<and> A e \<and> S sp \<and> B nd)"
    by blast
  then show ?thesis
    unfolding ci_eq_def
    by (simp only: lang_Seq_iff lang_lit_ChI mem_Collect_eq lang_Many_Space)
qed

lemma lang_paths:
  "p \<in> lang (Alt (Seq (lit ChI (ascii ''/usr/bin/env'')) (Seq (Many Space) (lit ChI (ascii ''node''))))
         (Alt (lit ChI (ascii ''/usr/local/bin/node'')) (lit ChI (ascii ''/usr/bin/node''))))
   \<longleftrightarrow> interpreter_path p"
  unfolding interpreter_path_def
  by (simp only: lang.simps(5) Un_iff lang_env) (simp only: lang_lit_ChI mem_Collect_eq ci_eq_def)

lemma spaces_append: "spaces (u @ v) \<longleftrightarrow> spaces u \<and> spaces v"
  by (auto simp: spaces_def)

lemma spaces_CR: "spaces [13]"
  by (simp add: spaces_def is_space_def)

lemma lang_Seq5:
  "w \<in> lang (Seq a (Seq b (Seq c (Seq d e)))) \<longleftrightarrow>
     (\<exists>x1 x2 x3 x4 x5. w = x1 @ x2 @ x3 @ x4 @ x5 \<and>
        x1 \<in> lang a \<and> x2 \<in> lang b \<and> x3 \<in> lang c \<and> x4 \<in> lang d \<and> x5 \<in> lang e)"
  by (simp only: lang_Seq_iff) blast

lemma lang_re_shebang_parts:
  "u \<in> lang re_shebang \<longleftrightarrow>
     (\<exists>x1 x2 x3 x4 x5. u = x1 @ x2 @ x3 @ x4 @ x5 \<and>
        x1 = ascii ''#!'' \<and> spaces x2 \<and> interpreter_path x3 \<and> spaces x4 \<and>
        (x5 = [13, 10] \<or> x5 = [10]))"
  unfolding re_shebang_def
  by (simp only: lang_Seq5 lang_paths lang_Many_Space lang_eol)
     (simp only: lang_lit_ChI mem_Collect_eq ci_hashbang)

lemma lang_re_shebang:
  "u \<in> lang re_shebang \<longleftrightarrow>
     (\<exists>w1 p w2. u = ascii ''#!'' @ w1 @ p @ w2 @ [10] \<and> spaces w1 \<and> interpreter_path p \<and> spaces w2)"
proof
  assume "u \<in> lang re_shebang"
  then obtain w1 p w2 e where
    u: "u = ascii ''#!'' @ w1 @ p @ w2 @ e" and w: "spaces w1" "spaces w2"
    and p: "interpreter_path p" and e: "e = [13, 10] \<or> e = [10]"
    unfolding lang_re_shebang_parts by blast
  from e show "\<exists>w1 p w2. u = ascii ''#!'' @ w1 @ p @ w2 @ [10] \<and> spaces w1 \<and> interpreter_path p \<and> spaces w2"
  proof
    assume "e = [13, 10]"
    with u have "u = ascii ''#!'' @ w1 @ p @ (w2 @ [13]) @ [10]" by simp
    moreover have "spaces (w2 @ [13])" using w by (simp add: spaces_append spaces_CR)
    ultimately show ?thesis using w p by blast
  next
    assume "e = [10]"
    with u have "u = ascii ''#!'' @ w1 @ p @ w2 @ [10]" by simp
    then show ?thesis using w p by blast
  qed
next
  assume "\<exists>w1 p w2. u = ascii ''#!'' @ w1 @ p @ w2 @ [10] \<and> spaces w1 \<and> interpreter_path p \<and> spaces w2"
  then show "u \<in> lang re_shebang"
    unfolding lang_re_shebang_parts by blast
qed

lemma search_re_shebang: "search re_shebang text \<longleftrightarrow> has_directive text"
proof
  assume "search re_shebang text"
  then obtain pre u post where "text = pre @ u @ post" "u \<in> lang re_shebang"
    unfolding search_iff by blast
  then obtain w1 p w2 where "text = pre @ ascii ''#!'' @ w1 @ p @ w2 @ [10] @ post"
    "spaces w1" "interpreter_path p" "spaces w2"
    unfolding lang_re_shebang by auto
  then show "has_directive text"
    unfolding has_directive_def by blast
next
  assume "has_directive text"
  then obtain pre w1 p w2 post where
    t: "text = pre @ (ascii ''#!'' @ w1 @ p @ w2 @ [10]) @ post"
    and *: "spaces w1" "interpreter_path p" "spaces w2"
    unfolding has_directive_def by auto
  from * have "ascii ''#!'' @ w1 @ p @ w2 @ [10] \<in> lang re_shebang"
    unfolding lang_re_shebang by blast
  with t show "search re_shebang text"
    unfolding search_iff by blast
qed


lemma utf8_ascii: "\<forall>b \<in> set a. b < 128 \<Longrightarrow> utf8 0 0 128 191 (a @ X) = a @ utf8 0 0 128 191 X"
  by (induction a) auto

lemma read_into_buffer_prefix:
  "length a \<le> n \<Longrightarrow> read_into_buffer n (a @ rest) = map of_char a @ read_into_buffer (n - length a) rest"
  by (simp add: read_into_buffer_def)

lemma text_ascii_prefix:
  assumes "length a \<le> n" "\<forall>b \<in> set a. (of_char b :: nat) < 128"
  shows "toString_utf8 (read_into_buffer n (a @ rest)) = ascii a @ toString_utf8 (read_into_buffer (n - length a) rest)"
  using assms by (simp add: read_into_buffer_prefix toString_utf8_def utf8_ascii ascii_def)

lemma has_directive_start:
  assumes "interpreter_path p" "spaces w2"
  shows "has_directive (ascii ''#!'' @ p @ w2 @ [10] @ post)"
proof -
  have "ascii ''#!'' @ p @ w2 @ [10] @ post = [] @ ascii ''#!'' @ [] @ p @ w2 @ [10] @ post" by simp
  moreover have "spaces []" by (simp add: spaces_def)
  ultimately show ?thesis unfolding has_directive_def using assms by blast
qed

lemma interpreter_path_env: "interpreter_path (ascii ''/usr/bin/env node'')"
proof -
  have "ascii ''/usr/bin/env node'' = ascii ''/usr/bin/env'' @ [32] @ ascii ''node''"
    by (simp add: ascii_def)
  moreover have "spaces [32]" by (simp add: spaces_def is_space_def)
  ultimately show ?thesis unfolding interpreter_path_def ci_eq_def by blast
qed

lemma interpreter_path_local: "interpreter_path (ascii ''/usr/local/bin/node'')"
  unfolding interpreter_path_def ci_eq_def by blast

lemma interpreter_path_usr: "interpreter_path (ascii ''/usr/bin/node'')"
  unfolding interpreter_path_def ci_eq_def by blast

lemma directive_forms:
  assumes "d \<in> {''#!/usr/bin/env node'', ''#!/usr/local/bin/node'', ''#!/usr/bin/node''}"
      and "eol \<in> {[CHR 0x0A], [CHR 0x0D, CHR 0x0A]}"
  shows "has_directive (toString_utf8 (read_into_buffer 400 (d @ eol @ rest)))"
proof -
  obtain p where d: "ascii d = ascii ''#!'' @ p" and p: "interpreter_path p"
    using assms(1) interpreter_path_env interpreter_path_local interpreter_path_usr
    by (auto simp: ascii_def)
  obtain w2 where e: "ascii eol = w2 @ [10]" and w2: "spaces w2"
    using assms(2) spaces_CR by (auto simp: ascii_def spaces_def)
  have "length (d @ eol) \<le> 400" "\<forall>b \<in> set (d @ eol). (of_char b :: nat) < 128"
    using assms by auto
  then have "toString_utf8 (read_into_buffer 400 ((d @ eol) @ rest))
      = ascii (d @ eol) @ toString_utf8 (read_into_buffer (400 - length (d @ eol)) rest)"
    by (rule text_ascii_prefix)
  then have "toString_utf8 (read_into_buffer 400 (d @ eol @ rest))
      = ascii ''#!'' @ p @ w2 @ [10] @ toString_utf8 (read_into_buffer (400 - length (d @ eol)) rest)"
    using d e by (simp add: ascii_def)
  then show ?thesis
    using has_directive_start[OF p w2] by simp
qed

text \<open>
  C3, as the code has it. On a POSIX target a file that is not a local-bin entry is an
  interpreter script exactly when the first 400 bytes, decoded, contain somewhere
  \<^verbatim>\<open>#!\<close>, optional whitespace, one of the three interpreter paths in any case of letters,
  optional whitespace and a line feed (a carriage return before it counts as
  whitespace); otherwise it is not a script. In particular a file that starts with one
  of the three directives, ended by a line feed with or without a carriage return, is
  an interpreter script.
\<close>

theorem findNodeScript_sniffs_directive:
  assumes "platform E = Posix" "ex \<noteq> []" "stat E ex = Inr isDir" "readFile E ex = Inr bytes"
  shows "findNodeScript (Suc n) E (Some ex) False
           = Resolves (if has_directive (toString_utf8 (read_into_buffer 400 bytes))
                       then Some ex else None)
       \<and> (\<forall>d eol rest.
            d \<in> {''#!/usr/bin/env node'', ''#!/usr/local/bin/node'', ''#!/usr/bin/node''}
            \<and> eol \<in> {[CHR 0x0A], [CHR 0x0D, CHR 0x0A]} \<and> bytes = d @ eol @ rest
            \<longrightarrow> findNodeScript (Suc n) E (Some ex) False = Resolves (Some ex))"
proof -
  have eq: "findNodeScript (Suc n) E (Some ex) False
           = Resolves (if has_directive (toString_utf8 (read_into_buffer 400 bytes))
                       then Some ex else None)"
    using assms by (simp add: sniff_posix_def search_re_shebang)
  moreover have "findNodeScript (Suc n) E (Some ex) False = Resolves (Some ex)"
    if "d \<in> {''#!/usr/bin/env node'', ''#!/usr/local/bin/node'', ''#!/usr/bin/node''}"
       "eol \<in> {[CHR 0x0A], [CHR 0x0D, CHR 0x0A]}" "bytes = d @ eol @ rest" for d eol rest
    using eq directive_forms[OF that(1,2)] that(3) by simp
  ultimately show ?thesis by blast
qed

text \<open>A file that starts with \<^verbatim>\<open>#!/usr/bin/node\<close>, a carriage return and a line feed.\<close>

theorem findNodeScript_sniffs_directive_witness:
  "findNodeScript 1 (env_file path_tool (''#!/usr/bin/node'' @ [CHR 0x0D, CHR 0x0A] @ ''console.log(1)''))
     (Some path_tool) False = Resolves (Some path_tool)"
proof -
  let ?b = "''#!/usr/bin/node'' @ [CHR 0x0D, CHR 0x0A] @ ''console.log(1)''"
  let ?E = "env_file path_tool ?b"
  have 1: "platform ?E = Posix" by (simp add: env_file_def env0_def)
  have 2: "path_tool \<noteq> []" by (simp add: path_tool_def ascii_def)
  have 3: "stat ?E path_tool = Inr False" by (simp add: env_file_def)
  have 4: "readFile ?E path_tool = Inr ?b" by (simp add: env_file_def)
  have "findNodeScript (Suc 0) ?E (Some path_tool) False = Resolves (Some path_tool)"
    using findNodeScript_sniffs_directive[OF 1 2 3 4, of 0] by blast
  then show ?thesis by (simp only: One_nat_def)
qed

text \<open>
  The pattern is not anchored: a file whose leading line is \<^verbatim>\<open>echo hi\<close> and whose second
  line is \<^verbatim>\<open>#!/usr/bin/env node\<close> is classified as an interpreter script.
\<close>

theorem shebang_on_second_line_counterexample:
  "\<not> spec_leading_directive (''echo hi'' @ [CHR 0x0A] @ ''#!/usr/bin/env node'' @ [CHR 0x0A])
   \<and> findNodeScript 1
       (env_file path_tool (''echo hi'' @ [CHR 0x0A] @ ''#!/usr/bin/env node'' @ [CHR 0x0A]))
       (Some path_tool) False = Resolves (Some path_tool)"
  by code_simp

section \<open>Package directories\<close>

text \<open>More fuel does not change a result that was reached.\<close>

lemma findNodeScript_fuel:
  "findNodeScript n E ex l \<noteq> Diverges \<Longrightarrow> findNodeScript (Suc n) E ex l = findNodeScript n E ex l"
proof (induction n arbitrary: ex)
  case 0
  then show ?case by simp
next
  case (Suc n)
  show ?case
  proof (cases ex)
    case None
    then show ?thesis by simp
  next
    case (Some x)
    show ?thesis
    proof (cases "stat E x")
      case (Inl err)
      with Some show ?thesis by simp
    next
      case (Inr isDir)
      show ?thesis
      proof (cases "loadManifest E (path_resolve E x (ascii ''package.json''))")
        case None
        with Some Inr show ?thesis by auto
      next
        case pkg: (Some pkg)
        show ?thesis
        proof (cases "entry_of pkg")
          case JAbsent
          with Some Inr pkg show ?thesis by auto
        next
          case (JNonString b)
          with Some Inr pkg show ?thesis by auto
        next
          case (JStr t)
          let ?t = "Some (path_resolve E x t)"
          show ?thesis
          proof (cases "x \<noteq> [] \<and> \<not> (l \<and> path_extname E x \<in> {ascii ''.js'', ascii ''.cjs''})
                         \<and> l \<and> isDir")
            case True
            with Suc.prems Some Inr pkg JStr have "findNodeScript n E ?t l \<noteq> Diverges"
              by (auto simp: Let_def split: result.splits)
            then have "findNodeScript (Suc n) E ?t l = findNodeScript n E ?t l"
              by (rule Suc.IH)
            with True Some Inr pkg JStr show ?thesis
              by (simp add: Let_def)
          next
            case False
            with Some Inr pkg JStr show ?thesis by auto
          qed
        qed
      qed
    qed
  qed
qed

text \<open>
  C4, as the code has it. For a local-bin path that is a directory and does not end in
  \<^verbatim>\<open>.js\<close> or \<^verbatim>\<open>.cjs\<close>, resolution loads the manifest, takes the entry
  \<^verbatim>\<open>bin || main || 'index.js'\<close>, resolves it against the directory and resolves that target
  recursively. It fails with \<^verbatim>\<open>command not found\<close> for the directory when the manifest
  cannot be loaded or the entry is not a string, and for the target when the recursive
  resolution finds no script; the script found by the recursive resolution is the
  result. A directory with neither \<^verbatim>\<open>bin\<close> nor \<^verbatim>\<open>main\<close> resolves to its \<^verbatim>\<open>index.js\<close> when
  that file exists.
\<close>

theorem findNodeScript_directory:
  assumes "ex \<noteq> []" "stat E ex = Inr True"
      and "path_extname E ex \<notin> {ascii ''.js'', ascii ''.cjs''}"
  shows
   "(loadManifest E (path_resolve E ex (ascii ''package.json'')) = None \<longrightarrow>
       findNodeScript (Suc n) E (Some ex) True = Rejects (new_Error (CommandNotFound ex)))
  \<and> (\<forall>pkg. loadManifest E (path_resolve E ex (ascii ''package.json'')) = Some pkg \<longrightarrow>
       entry_of pkg = (if truthy_val (bin pkg) then bin pkg
                       else if truthy_val (main pkg) then main pkg
                       else JStr (ascii ''index.js''))
     \<and> (\<forall>b. entry_of pkg = JNonString b \<longrightarrow>
           findNodeScript (Suc n) E (Some ex) True = Rejects (new_Error (CommandNotFound ex)))
     \<and> (\<forall>t. entry_of pkg = JStr t \<longrightarrow>
          (\<forall>script. findNodeScript n E (Some (path_resolve E ex t)) True = Resolves (Some script)
                    \<and> script \<noteq> [] \<longrightarrow>
             findNodeScript (Suc n) E (Some ex) True = Resolves (Some script))
        \<and> (\<forall>r. findNodeScript n E (Some (path_resolve E ex t)) True = Resolves r
               \<and> \<not> truthy_str r \<longrightarrow>
             findNodeScript (Suc n) E (Some ex) True
               = Rejects (new_Error (CommandNotFound (path_resolve E ex t)))))
     \<and> (\<forall>isDir. \<not> truthy_val (bin pkg) \<and> \<not> truthy_val (main pkg)
           \<and> path_resolve E ex (ascii ''index.js'') \<noteq> []
           \<and> stat E (path_resolve E ex (ascii ''index.js'')) = Inr isDir
           \<and> path_extname E (path_resolve E ex (ascii ''index.js'')) = ascii ''.js'' \<longrightarrow>
           findNodeScript (Suc (Suc n)) E (Some ex) True
             = Resolves (Some (path_resolve E ex (ascii ''index.js'')))))"
  using assms
  by (auto simp: Let_def entry_of_def truthy_str_def split: option.splits)

text \<open>One hop from the directory to the script its \<^verbatim>\<open>bin\<close> names.\<close>

theorem findNodeScript_directory_witness:
  "findNodeScript 2 env_bin_package (Some dir_app) True = Resolves (Some (ascii ''/srv/app/bin/run''))"
proof -
  let ?E = env_bin_package
  have 1: "dir_app \<noteq> []" by (simp add: dir_app_def ascii_def)
  have 2: "stat ?E dir_app = Inr True" by (simp add: env_bin_package_def dir_app_def)
  have 3: "path_extname ?E dir_app \<notin> {ascii ''.js'', ascii ''.cjs''}"
    by (simp add: env_bin_package_def env0_def dir_app_def posix_extname_def posix_basename_def ascii_def)
  have 4: "loadManifest ?E (path_resolve ?E dir_app (ascii ''package.json''))
             = Some \<lparr>bin = JStr (ascii ''bin/run''), main = JAbsent\<rparr>"
    by (simp add: env_bin_package_def env0_def dir_app_def posix_resolve_def ascii_def)
  have 5: "entry_of \<lparr>bin = JStr (ascii ''bin/run''), main = JAbsent\<rparr> = JStr (ascii ''bin/run'')"
    by (simp add: entry_of_def ascii_def)
  have 6: "findNodeScript (Suc 0) ?E (Some (path_resolve ?E dir_app (ascii ''bin/run''))) True
             = Resolves (Some (ascii ''/srv/app/bin/run''))"
    by code_simp
  have 7: "ascii ''/srv/app/bin/run'' \<noteq> []" by (simp add: ascii_def)
  have "findNodeScript (Suc (Suc 0)) ?E (Some dir_app) True = Resolves (Some (ascii ''/srv/app/bin/run''))"
    using findNodeScript_directory[OF 1 2 3, of "Suc 0"] 4 5 6 7 by blast
  then show ?thesis by (simp only: numeral_2_eq_2)
qed

text \<open>
  A directory with neither \<^verbatim>\<open>bin\<close> nor \<^verbatim>\<open>main\<close> does not fail: it resolves to its
  \<^verbatim>\<open>index.js\<close>.
\<close>

theorem bare_package_resolves_counterexample:
  "loadManifest env_bare_package (path_resolve env_bare_package dir_app (ascii ''package.json''))
     = Some \<lparr>bin = JAbsent, main = JAbsent\<rparr>
   \<and> stat env_bare_package dir_app = Inr True
   \<and> findNodeScript 2 env_bare_package (Some dir_app) True
       = Resolves (Some (ascii ''/srv/app/index.js''))"
  by code_simp

section \<open>The hand-off\<close>

lemma split_go_plain: "\<forall>c \<in> set t. \<not> is_space c \<Longrightarrow> split_go b tok t = [tok @ t]"
  by (induction t arbitrary: tok b) auto

lemma split_go_pieces:
  "\<forall>c \<in> set tok. \<not> is_space c \<Longrightarrow> x \<in> set (split_go b tok s) \<Longrightarrow> \<forall>c \<in> set x. \<not> is_space c"
proof (induction s arbitrary: tok b)
  case Nil
  then show ?case by simp
next
  case (Cons a s)
  show ?case
  proof (cases "is_space a")
    case True
    have nil: "\<forall>c \<in> set ([] :: jsstring). \<not> is_space c" by simp
    from True Cons.prems(2) have "x = tok \<or> x \<in> set (split_go True [] s) \<or> x \<in> set (split_go True tok s)"
      by (auto split: if_splits)
    then show ?thesis
      using Cons.prems(1) Cons.IH[OF nil] Cons.IH[OF Cons.prems(1)] by blast
  next
    case False
    with Cons.prems have "\<forall>c \<in> set (tok @ [a]). \<not> is_space c" "x \<in> set (split_go False (tok @ [a]) s)"
      by auto
    then show ?thesis by (rule Cons.IH)
  qed
qed

lemma split_ws_piece: "t \<in> set (split_ws s) \<Longrightarrow> split_ws t = [t]"
  using split_go_pieces[of "[]" t False s] split_go_plain[of t False "[]"]
  by (simp add: split_ws_def)

lemma concat_map_singletons: "\<forall>t \<in> set xs. f t = [t] \<Longrightarrow> concat (map f xs) = xs"
  by (induction xs) auto

lemma split_ws_twice: "concat (map split_ws (split_ws s)) = split_ws s"
  by (rule concat_map_singletons) (simp add: split_ws_piece)

lemmas io_defs = io_bind_def io_return_def io_reject_def io_exit_def io_lift_def io_log_def
  io_when_def set_exitCode_def

lemma io_runCommand_world:
  "trace (snd (io_runCommand E cmd argv opts w)) = trace w @ [RunCommand cmd opts]"
  "process_argv (snd (io_runCommand E cmd argv opts w)) = process_argv w"
  by (auto simp: io_runCommand_def io_defs split: option.splits)

lemma execCommand_Resolves:
  assumes "findNodeScript n E ex (opt_isLocal argv) = Resolves existing"
  shows "execCommand n E ex argv w =
     (if truthy_str existing \<and> \<not> opt_alwaysSpawn argv \<and> \<not> truthy_nodeArg (opt_nodeArg argv)
          \<and> \<not> truthy_str (opt_shell argv) \<and> existing \<noteq> argv1 w
      then takeover argv (the existing) (userArgs argv) w
      else if \<not> truthy_str existing \<and> truthy_nodeArg (opt_nodeArg argv)
               \<and> nodeArg_length (opt_nodeArg argv)
      then (Rejects (new_Error NodeArgUsage), w)
      else if truthy_str existing
      then io_runCommand E (runtime_cmd E w) argv
             (concat (map split_ws (nodeArg_list (opt_nodeArg argv)))
                @ [the existing] @ userArgs argv) w
      else io_runCommand E existing argv (userArgs argv) w)"
  unfolding execCommand_def io_bind_def io_lift_def assms Let_def userArgs_def runtime_cmd_def
    io_reject_def
  by (simp only: prod.case result.case)

lemma takeover_world:
  "takeover argv script args w =
     (Resolves (),
      w\<lparr>trace := trace w @ (if opt_noYargs argv then [] else [YargsReset]) @ [RunMain],
        process_argv := (argv0 w, script # args)\<rparr>)"
  by (simp add: takeover_def io_defs argv0_def)

lemma execCommand_spawn_script:
  assumes "findNodeScript n E ex (opt_isLocal argv) = Resolves (Some script)" "script \<noteq> []"
      and "truthy_nodeArg (opt_nodeArg argv)"
  shows "new_events w (execCommand n E ex argv w)
           = [RunCommand (runtime_cmd E w)
                (concat (map split_ws (nodeArg_list (opt_nodeArg argv))) @ [script] @ userArgs argv)]"
  using assms execCommand_Resolves[OF assms(1), of w]
  by (simp add: io_runCommand_world new_events_def truthy_str_def)

text \<open>
  C8. When a script was resolved and interpreter flags are supplied, the child is the
  runtime binary, and its arguments are the flags, each split at runs of whitespace,
  then the script, then the trailing arguments. A single string \<open>s\<close>, the one-element
  array \<open>[s]\<close> and the array of the pieces of \<open>s\<close> give the same list; in particular
  \<^verbatim>\<open>"--inspect --harmony"\<close> gives the same list as \<^verbatim>\<open>["--inspect", "--harmony"]\<close>.
\<close>

theorem nodeArg_string_or_array:
  assumes "findNodeScript n E ex (opt_isLocal argv) = Resolves (Some script)" "script \<noteq> []"
      and "s \<noteq> []"
  shows "new_events w (execCommand n E ex (argv\<lparr>opt_nodeArg := NodeArgStr s\<rparr>) w)
           = [RunCommand (runtime_cmd E w) (split_ws s @ [script] @ userArgs argv)]
       \<and> new_events w (execCommand n E ex (argv\<lparr>opt_nodeArg := NodeArgArr [s]\<rparr>) w)
           = [RunCommand (runtime_cmd E w) (split_ws s @ [script] @ userArgs argv)]
       \<and> new_events w (execCommand n E ex (argv\<lparr>opt_nodeArg := NodeArgArr (split_ws s)\<rparr>) w)
           = [RunCommand (runtime_cmd E w) (split_ws s @ [script] @ userArgs argv)]
       \<and> (\<forall>xs. new_events w (execCommand n E ex (argv\<lparr>opt_nodeArg := NodeArgArr xs\<rparr>) w)
           = [RunCommand (runtime_cmd E w) (concat (map split_ws xs) @ [script] @ userArgs argv)])
       \<and> split_ws (ascii ''--inspect --harmony'') = [ascii ''--inspect'', ascii ''--harmony'']
       \<and> concat (map split_ws [ascii ''--inspect'', ascii ''--harmony''])
           = [ascii ''--inspect'', ascii ''--harmony'']"
proof -
  have a: "new_events w (execCommand n E ex (argv\<lparr>opt_nodeArg := na\<rparr>) w)
           = [RunCommand (runtime_cmd E w)
                (concat (map split_ws (nodeArg_list na)) @ [script] @ userArgs argv)]"
    if "truthy_nodeArg na" for na
    using execCommand_spawn_script[of n E ex "argv\<lparr>opt_nodeArg := na\<rparr>" script w] assms that
    by (simp add: userArgs_def)
  have b: "split_ws (ascii ''--inspect --harmony'') = [ascii ''--inspect'', ascii ''--harmony'']"
    by (simp add: split_ws_def ascii_def is_space_def)
  have c: "concat (map split_ws [ascii ''--inspect'', ascii ''--harmony''])
           = [ascii ''--inspect'', ascii ''--harmony'']"
    by (simp add: split_ws_def ascii_def is_space_def)
  from a[of "NodeArgStr s"] a[of "NodeArgArr [s]"] a[of "NodeArgArr (split_ws s)"]
       a[of "NodeArgArr xs" for xs] b c assms(3)
  show ?thesis
    by (simp add: split_ws_twice)
qed


text \<open>The two forms of \<^verbatim>\<open>--inspect --harmony\<close> for the script of \<open>env_script\<close>.\<close>

theorem nodeArg_string_or_array_witness:
  "new_events world0
     (execCommand 1 env_script (Some path_tool)
        (argv_cowsay\<lparr>opt_nodeArg := NodeArgStr (ascii ''--inspect --harmony'')\<rparr>) world0)
   = [RunCommand (Some (ascii ''/usr/bin/node''))
        [ascii ''--inspect'', ascii ''--harmony'', path_tool, ascii ''hello'']]
   \<and> new_events world0
     (execCommand 1 env_script (Some path_tool)
        (argv_cowsay\<lparr>opt_nodeArg := NodeArgArr [ascii ''--inspect'', ascii ''--harmony'']\<rparr>) world0)
   = [RunCommand (Some (ascii ''/usr/bin/node''))
        [ascii ''--inspect'', ascii ''--harmony'', path_tool, ascii ''hello'']]"
proof -
  let ?E = env_script
  have 1: "findNodeScript 1 ?E (Some path_tool) (opt_isLocal argv_cowsay) = Resolves (Some path_tool)"
    by code_simp
  have 2: "path_tool \<noteq> []" by (simp add: path_tool_def ascii_def)
  have 3: "ascii ''--inspect --harmony'' \<noteq> []" by (simp add: ascii_def)
  have 4: "runtime_cmd ?E world0 = Some (ascii ''/usr/bin/node'')"
    by (simp add: runtime_cmd_def env_script_def env_file_def env0_def world0_def argv0_def)
  have 5: "userArgs argv_cowsay = [ascii ''hello'']"
    by (simp add: userArgs_def argv_cowsay_def)
  from nodeArg_string_or_array[OF 1 2 3, of world0] show ?thesis
    by (simp add: 4 5)
qed

text \<open>
  C2. \<open>execCommand\<close> hands the process over (\<open>RunMain\<close>) if and only if the target
  resolved to a script, \<^verbatim>\<open>alwaysSpawn\<close>, \<^verbatim>\<open>nodeArg\<close> and \<^verbatim>\<open>shell\<close> are all falsy, and the script
  is not \<^verbatim>\<open>process.argv[1]\<close>. Then \<^verbatim>\<open>process.argv\<close> becomes the runtime binary, the script
  and the trailing arguments, and nothing is spawned; otherwise \<^verbatim>\<open>process.argv\<close> is left
  as it was.
\<close>

theorem execCommand_takeover_iff:
  "(RunMain \<in> set (new_events w (execCommand n E ex argv w)) \<longleftrightarrow>
      (\<exists>script. findNodeScript n E ex (opt_isLocal argv) = Resolves (Some script) \<and> script \<noteq> []
         \<and> \<not> opt_alwaysSpawn argv \<and> \<not> truthy_nodeArg (opt_nodeArg argv)
         \<and> \<not> truthy_str (opt_shell argv) \<and> Some script \<noteq> argv1 w))
 \<and> (\<forall>script. findNodeScript n E ex (opt_isLocal argv) = Resolves (Some script) \<and> script \<noteq> []
         \<and> \<not> opt_alwaysSpawn argv \<and> \<not> truthy_nodeArg (opt_nodeArg argv)
         \<and> \<not> truthy_str (opt_shell argv) \<and> Some script \<noteq> argv1 w \<longrightarrow>
       fst (execCommand n E ex argv w) = Resolves ()
     \<and> process_argv (snd (execCommand n E ex argv w)) = (argv0 w, script # userArgs argv)
     \<and> new_events w (execCommand n E ex argv w)
         = (if opt_noYargs argv then [] else [YargsReset]) @ [RunMain])
 \<and> (RunMain \<notin> set (new_events w (execCommand n E ex argv w)) \<longrightarrow>
       process_argv (snd (execCommand n E ex argv w)) = process_argv w)"
proof (cases "findNodeScript n E ex (opt_isLocal argv)")
  case (Resolves existing)
  note exec = execCommand_Resolves[OF Resolves, of w]
  show ?thesis
  proof (cases "truthy_str existing \<and> \<not> opt_alwaysSpawn argv \<and> \<not> truthy_nodeArg (opt_nodeArg argv)
                 \<and> \<not> truthy_str (opt_shell argv) \<and> existing \<noteq> argv1 w")
    case True
    then obtain script where "existing = Some script" "script \<noteq> []"
      by (auto simp: truthy_str_def split: option.splits)
    with True Resolves exec show ?thesis
      by (simp add: takeover_world new_events_def)
  next
    case False
    with exec have "RunMain \<notin> set (new_events w (execCommand n E ex argv w))
        \<and> process_argv (snd (execCommand n E ex argv w)) = process_argv w"
      by (simp add: io_runCommand_world new_events_def)
    moreover from False Resolves have
      "\<not> (\<exists>script. findNodeScript n E ex (opt_isLocal argv) = Resolves (Some script) \<and> script \<noteq> []
         \<and> \<not> opt_alwaysSpawn argv \<and> \<not> truthy_nodeArg (opt_nodeArg argv)
         \<and> \<not> truthy_str (opt_shell argv) \<and> Some script \<noteq> argv1 w)"
      by (auto simp: truthy_str_def)
    ultimately show ?thesis by blast
  qed
next
  case (Rejects err)
  then show ?thesis by (simp add: execCommand_def io_defs new_events_def)
next
  case (Exits c)
  then show ?thesis by (simp add: execCommand_def io_defs new_events_def)
next
  case Diverges
  then show ?thesis by (simp add: execCommand_def io_defs new_events_def)
qed

text \<open>\<^verbatim>\<open>npx cowsay hello\<close> with the script of \<open>env_script\<close> takes the process over.\<close>

theorem execCommand_takeover_iff_witness:
  "RunMain \<in> set (new_events world0
      (execCommand 1 env_script (Some path_tool)
         argv_cowsay world0))
   \<and> process_argv (snd (execCommand 1 env_script
         (Some path_tool) argv_cowsay world0))
       = (ascii ''/usr/bin/node'', [path_tool, ascii ''hello''])"
proof -
  let ?E = env_script
  have 1: "findNodeScript 1 ?E (Some path_tool) (opt_isLocal argv_cowsay) = Resolves (Some path_tool)"
    by code_simp
  have 2: "path_tool \<noteq> []" by (simp add: path_tool_def ascii_def)
  have 3: "\<not> opt_alwaysSpawn argv_cowsay \<and> \<not> truthy_nodeArg (opt_nodeArg argv_cowsay)
           \<and> \<not> truthy_str (opt_shell argv_cowsay) \<and> Some path_tool \<noteq> argv1 world0"
    by (simp add: argv_cowsay_def truthy_str_def argv1_def world0_def path_tool_def ascii_def)
  have 4: "userArgs argv_cowsay = [ascii ''hello'']" "argv0 world0 = ascii ''/usr/bin/node''"
    by (simp_all add: userArgs_def argv_cowsay_def argv0_def world0_def)
  from execCommand_takeover_iff[of world0 1 ?E "Some path_tool" argv_cowsay] 1 2 3 4
  show ?thesis by (simp add: argv_cowsay_def)
qed

section \<open>The executable taken after the install\<close>

lemma array_get_cases:
  "array_get E xs key =
     (let k = (case key of None \<Rightarrow> ascii ''undefined'' | Some s \<Rightarrow> s) in
      case array_index xs k of
        Some i \<Rightarrow> Element (xs ! i)
      | None \<Rightarrow> if is_array_key E xs k then OtherValue (k = ascii ''length'' \<longrightarrow> xs \<noteq> [])
                else Undefined)"
  by (auto simp: array_get_def is_array_key_def Let_def split: option.splits)

lemma array_index_bound: "array_index xs k = Some i \<Longrightarrow> i < length xs \<and> toString_nat i = k"
  by (auto simp: array_index_def find_Some_iff)

text \<open>
  C10, as the code has it. For a listing that is not empty after the filter, with
  \<open>matching\<close> the first entry the pattern of the command matches: when nothing matches, or
  the matched name is not a property key of the listing array, the first entry is
  taken, also when the match is a later entry. When the matched name is the decimal
  form of an index, the entry at that index is taken; when it is the length or an
  inherited member, \<^verbatim>\<open>path.resolve\<close> throws.
\<close>

theorem installed_bin_selection:
  assumes "readdir E (info_bin results) = Inr listing"
      and "listed_bins E listing = first # rest"
      and "mkRegExp E command = Some cmd"
  shows
   "(List.find cmd (first # rest) = None \<and> \<not> is_array_key E (first # rest) (ascii ''undefined'') \<longrightarrow>
       installed_bin E command results = Resolves (Some (path_resolve E (info_bin results) first)))
  \<and> (\<forall>m. List.find cmd (first # rest) = Some m \<and> \<not> is_array_key E (first # rest) m \<longrightarrow>
       installed_bin E command results = Resolves (Some (path_resolve E (info_bin results) first)))
  \<and> (\<forall>m i. List.find cmd (first # rest) = Some m \<and> array_index (first # rest) m = Some i \<longrightarrow>
       i < length (first # rest) \<and> toString_nat i = m \<and>
       installed_bin E command results
         = Resolves (Some (path_resolve E (info_bin results)
                             (if (first # rest) ! i \<noteq> [] then (first # rest) ! i else first))))
  \<and> (\<forall>m. List.find cmd (first # rest) = Some m \<and> array_index (first # rest) m = None
          \<and> is_array_key E (first # rest) m \<longrightarrow>
       installed_bin E command results = Rejects (TypeError InvalidArgType))"
proof -
  have eq: "installed_bin E command results =
     (case array_get E (first # rest) (List.find cmd (first # rest)) of
        Element b \<Rightarrow>
          Resolves (Some (path_resolve E (info_bin results) (if b \<noteq> [] then b else first)))
      | OtherValue t \<Rightarrow>
          if t then Rejects (TypeError InvalidArgType)
          else Resolves (Some (path_resolve E (info_bin results) first))
      | Undefined \<Rightarrow> Resolves (Some (path_resolve E (info_bin results) first)))"
    using assms by (simp add: installed_bin_def listed_bins_def Let_def)
  show ?thesis
    unfolding eq
    by (auto simp: array_get_cases is_array_key_def dest: array_index_bound)
qed

text \<open>For the command \<^verbatim>\<open>cowsay\<close> and the entries \<^verbatim>\<open>cowthink\<close>, \<^verbatim>\<open>cowsay\<close>, \<^verbatim>\<open>cowthink\<close> is taken.\<close>

theorem installed_bin_selection_witness:
  "installed_bin env_cows (ascii ''cowsay'') info_4242
     = Resolves (Some (ascii ''/tmp/cache/_npx/4242/bin/cowthink''))"
proof -
  have 1: "readdir env_cows (info_bin info_4242) = Inr [ascii ''cowthink'', ascii ''cowsay'']"
    by (simp add: env_cows_def)
  have 2: "listed_bins env_cows [ascii ''cowthink'', ascii ''cowsay''] = ascii ''cowthink'' # [ascii ''cowsay'']"
    by (simp add: listed_bins_def env_cows_def env0_def)
  have 3: "mkRegExp env_cows (ascii ''cowsay'')
             = Some (\<lambda>b. map upper b = map upper (ascii ''cowsay'')
                        \<or> map upper b = map upper (ascii ''cowsay'' @ ascii ''.cmd''))"
    by (simp add: env_cows_def env0_def plain_RegExp_def)
  have 4: "List.find (\<lambda>b. map upper b = map upper (ascii ''cowsay'')
                        \<or> map upper b = map upper (ascii ''cowsay'' @ ascii ''.cmd''))
             (ascii ''cowthink'' # [ascii ''cowsay'']) = Some (ascii ''cowsay'')"
    by (simp add: ascii_def upper_def)
  have 5: "\<not> is_array_key env_cows (ascii ''cowthink'' # [ascii ''cowsay'']) (ascii ''cowsay'')"
    by code_simp
  have 6: "path_resolve env_cows (info_bin info_4242) (ascii ''cowthink'')
             = ascii ''/tmp/cache/_npx/4242/bin/cowthink''"
    by (simp add: env_cows_def env0_def info_4242_def posix_resolve_def ascii_def)
  from installed_bin_selection[OF 1 2 3] 4 5 have
    "installed_bin env_cows (ascii ''cowsay'') info_4242
       = Resolves (Some (path_resolve env_cows (info_bin info_4242) (ascii ''cowthink'')))"
    by blast
  with 6 show ?thesis by simp
qed

text \<open>
  For the command \<^verbatim>\<open>1\<close> and the entries \<^verbatim>\<open>a\<close>, \<^verbatim>\<open>1\<close>, the match \<^verbatim>\<open>"1"\<close> is an index of the
  listing: \<^verbatim>\<open>bins["1"]\<close> is the second entry, and it is taken instead of the first.
\<close>

theorem numbered_entry_counterexample:
  "readdir env_numbered (info_bin info_4242) = Inr [ascii ''a'', ascii ''1'']
   \<and> installed_bin env_numbered (ascii ''1'') info_4242
       = Resolves (Some (ascii ''/tmp/cache/_npx/4242/bin/1''))
   \<and> path_resolve env_numbered (info_bin info_4242) (ascii ''a'')
       = ascii ''/tmp/cache/_npx/4242/bin/a''"
  by code_simp

section \<open>What a run adds to the trace\<close>

lemma emitsI: "(\<And>w. \<exists>evs. trace (snd (m w)) = trace w @ evs \<and> (\<forall>e \<in> set evs. P e)) \<Longrightarrow> emits P m"
  by (simp add: emits_def)

lemma emitsD: "emits P m \<Longrightarrow> \<exists>evs. trace (snd (m w)) = trace w @ evs \<and> (\<forall>e \<in> set evs. P e)"
  by (simp add: emits_def)

lemma emits_silent: "(\<And>w. trace (snd (m w)) = trace w) \<Longrightarrow> emits P m"
  by (rule emitsI) simp

lemma emits_return: "emits P (io_return x)"
  by (rule emits_silent) (simp add: io_return_def)

lemma emits_reject: "emits P (io_reject err)"
  by (rule emits_silent) (simp add: io_reject_def)

lemma emits_exit: "emits P (io_exit c)"
  by (rule emits_silent) (simp add: io_exit_def)

lemma emits_lift: "emits P (io_lift r)"
  by (rule emits_silent) (simp add: io_lift_def)

lemma emits_argv0: "emits P io_argv0"
  by (rule emits_silent) (simp add: io_argv0_def)

lemma emits_set_exitCode: "emits P (set_exitCode c)"
  by (rule emits_silent) (simp add: set_exitCode_def)

lemma emits_prepend_PATH: "emits P (prepend_PATH E dir)"
  by (rule emits_silent) (simp add: prepend_PATH_def)

lemma emits_assign_env: "emits P (assign_env e)"
  by (rule emits_silent) (simp add: assign_env_def split: option.splits)

lemma emits_log: "P ev \<Longrightarrow> emits P (io_log ev)"
  by (rule emitsI) (simp add: io_log_def)

lemma emits_bind:
  assumes "emits P m" "\<And>x. emits P (f x)"
  shows "emits P (io_bind m f)"
proof (rule emitsI)
  fix w
  obtain r w1 where m: "m w = (r, w1)" by (cases "m w")
  from emitsD[OF assms(1), of w] m obtain evs1 where
    1: "trace w1 = trace w @ evs1" "\<forall>e \<in> set evs1. P e" by auto
  show "\<exists>evs. trace (snd (io_bind m f w)) = trace w @ evs \<and> (\<forall>e \<in> set evs. P e)"
  proof (cases r)
    case (Resolves x)
    from emitsD[OF assms(2), of x w1] obtain evs2 where
      2: "trace (snd (f x w1)) = trace w1 @ evs2" "\<forall>e \<in> set evs2. P e" by auto
    from Resolves m have "io_bind m f w = f x w1" by (simp add: io_bind_def)
    with 1 2 have "trace (snd (io_bind m f w)) = trace w @ (evs1 @ evs2)" "\<forall>e \<in> set (evs1 @ evs2). P e"
      by auto
    then show ?thesis by blast
  next
    case (Rejects err)
    with m 1 show ?thesis by (auto simp: io_bind_def)
  next
    case (Exits c)
    with m 1 show ?thesis by (auto simp: io_bind_def)
  next
    case Diverges
    with m 1 show ?thesis by (auto simp: io_bind_def)
  qed
qed

lemma emits_catch:
  assumes "emits P m" "\<And>err. emits P (h err)"
  shows "emits P (io_catch m h)"
proof (rule emitsI)
  fix w
  obtain r w1 where m: "m w = (r, w1)" by (cases "m w")
  from emitsD[OF assms(1), of w] m obtain evs1 where
    1: "trace w1 = trace w @ evs1" "\<forall>e \<in> set evs1. P e" by auto
  show "\<exists>evs. trace (snd (io_catch m h w)) = trace w @ evs \<and> (\<forall>e \<in> set evs. P e)"
  proof (cases r)
    case (Rejects err)
    from emitsD[OF assms(2), of err w1] obtain evs2 where
      2: "trace (snd (h err w1)) = trace w1 @ evs2" "\<forall>e \<in> set evs2. P e" by auto
    from Rejects m have "io_catch m h w = h err w1" by (simp add: io_catch_def)
    with 1 2 have "trace (snd (io_catch m h w)) = trace w @ (evs1 @ evs2)" "\<forall>e \<in> set (evs1 @ evs2). P e"
      by auto
    then show ?thesis by blast
  next
    case (Resolves x)
    with m 1 show ?thesis by (auto simp: io_catch_def)
  next
    case (Exits c)
    with m 1 show ?thesis by (auto simp: io_catch_def)
  next
    case Diverges
    with m 1 show ?thesis by (auto simp: io_catch_def)
  qed
qed

lemma emits_when: "emits P m \<Longrightarrow> emits P (io_when b m)"
  by (simp add: io_when_def emits_return)

lemma emits_mono: "emits P m \<Longrightarrow> (\<And>e. P e \<Longrightarrow> Q e) \<Longrightarrow> emits Q m"
  unfolding emits_def by blast

lemma emits_if: "emits P a \<Longrightarrow> emits P b \<Longrightarrow> emits P (if c then a else b)"
  by simp

lemma emits_case_option:
  "emits P a \<Longrightarrow> (\<And>x. emits P (f x)) \<Longrightarrow> emits P (case v of None \<Rightarrow> a | Some x \<Rightarrow> f x)"
  by (cases v) simp_all

lemma emits_case_prod: "(\<And>x y. emits P (f x y)) \<Longrightarrow> emits P (case v of (x, y) \<Rightarrow> f x y)"
  by (cases v) simp

lemma emits_case_parsed:
  "emits P a \<Longrightarrow> emits P b \<Longrightarrow> (\<And>x y. emits P (f x y)) \<Longrightarrow>
   emits P (case v of PFalsy \<Rightarrow> a | PPrimitive \<Rightarrow> b | PObject x y \<Rightarrow> f x y)"
  by (cases v) simp_all

lemmas emits_intros = emits_return emits_reject emits_exit emits_lift emits_argv0
  emits_set_exitCode emits_prepend_PATH emits_assign_env emits_bind emits_catch emits_when
  emits_if emits_case_option emits_case_prod emits_case_parsed

lemma emits_exec: "P (Exec cmd args) \<Longrightarrow> emits P (io_exec E cmd args)"
  unfolding io_exec_def by (intro emits_intros emits_log)

lemma emits_spawn: "P (Spawn cmd args) \<Longrightarrow> emits P (io_spawn E cmd args)"
  unfolding io_spawn_def by (intro emits_intros emits_log)

lemma emits_getNpmCache: "(\<And>c a. P (Exec c a)) \<Longrightarrow> emits P (getNpmCache n E opts)"
  unfolding getNpmCache_def Let_def
  by (intro emits_intros emits_exec) simp_all

lemma emits_getEnv: "(\<And>c a. P (Exec c a)) \<Longrightarrow> emits P (getEnv n E opts)"
  unfolding getEnv_def Let_def
  by (intro emits_intros emits_exec) simp_all

lemma emits_mkdirSync: "P (Mkdir p) \<Longrightarrow> emits P (io_mkdirSync E p)"
  by (rule emitsI) (simp add: io_mkdirSync_def io_bind_def io_log_def split: option.splits)

lemma emits_on_exit: "P (OnExit p) \<Longrightarrow> emits P (io_on_exit p)"
  by (rule emitsI) (simp add: io_on_exit_def io_bind_def io_log_def)

lemma emits_rimraf: "P (Rimraf p) \<Longrightarrow> emits P (io_rimraf E p)"
  by (rule emitsI) (simp add: io_rimraf_def io_bind_def io_log_def split: option.splits)

lemma emits_installPackages:
  "(\<And>c a. P (Spawn c a)) \<Longrightarrow> emits P (installPackages n E specs prefix opts)"
proof -
  assume P: "\<And>c a. P (Spawn c a)"
  have *: "emits P (\<lambda>w. case io_spawn E c a w of
              (Resolves stdout, w') \<Rightarrow> (Resolves (g stdout), w')
            | (Rejects err, w') \<Rightarrow> (Rejects (h err), w')
            | (Exits c, w') \<Rightarrow> (Exits c, w')
            | (Diverges, w') \<Rightarrow> (Diverges, w'))" for c a and g :: "jsstring option \<Rightarrow> parsed" and h
  proof (rule emitsI)
    fix w
    from emitsD[OF emits_spawn[of P c a E], OF P, of w]
    show "\<exists>evs. trace (snd (case io_spawn E c a w of
              (Resolves stdout, w') \<Rightarrow> (Resolves (g stdout), w')
            | (Rejects err, w') \<Rightarrow> (Rejects (h err), w')
            | (Exits c, w') \<Rightarrow> (Exits c, w')
            | (Diverges, w') \<Rightarrow> (Diverges, w'))) = trace w @ evs \<and> (\<forall>e \<in> set evs. P e)"
      by (auto split: prod.splits result.splits)
  qed
  show ?thesis
    unfolding installPackages_def Let_def
    by (intro emits_intros *)
qed

lemma emits_ensurePackages:
  assumes "\<And>c a. P (Exec c a)" "\<And>c a. P (Spawn c a)" "\<And>p. P (Mkdir p)" "\<And>p. P (OnExit p)"
    "\<And>p. P (Rimraf p)"
  shows "emits P (ensurePackages n E specs opts)"
  unfolding ensurePackages_def Let_def
  by (intro emits_intros emits_getNpmCache emits_mkdirSync emits_on_exit emits_rimraf
        emits_installPackages assms)


lemma new_events_append: "trace (snd rw) = trace w @ evs \<Longrightarrow> new_events w rw = evs"
  by (simp add: new_events_def)

lemma emits_promise_all:
  assumes "emits P m"
  shows "emits P (\<lambda>w. if c then (case m w of
                   (Resolves x, w') \<Rightarrow> (f1 x, w')
                 | (Rejects err, w') \<Rightarrow> (f2 err, w')
                 | (Exits k, w') \<Rightarrow> (f3 k, w')
                 | (Diverges, w') \<Rightarrow> (f4, w'))
           else (g, w))"
proof (rule emitsI)
  fix w
  from emitsD[OF assms, of w]
  show "\<exists>evs. trace (snd (if c then (case m w of
                   (Resolves x, w') \<Rightarrow> (f1 x, w')
                 | (Rejects err, w') \<Rightarrow> (f2 err, w')
                 | (Exits k, w') \<Rightarrow> (f3 k, w')
                 | (Diverges, w') \<Rightarrow> (f4, w'))
           else (g, w))) = trace w @ evs \<and> (\<forall>e \<in> set evs. P e)"
    by (auto split: prod.splits result.splits)
qed

lemma emits_npx_existing:
  assumes "\<And>c a. P (Exec c a)" "\<And>c a. P (Spawn c a)" "\<And>p. P (Mkdir p)" "\<And>p. P (OnExit p)"
    "\<And>p. P (Rimraf p)" "P Prompt" "\<And>x. P (ConsoleLog x)" "\<And>k. P (ConsoleError (Installed k))"
  shows "emits P (npx_existing n E argv)"
  unfolding npx_existing_def Let_def
  by (intro emits_intros emits_promise_all emits_getEnv emits_ensurePackages emits_log assms)

lemma emits_npx_catch: "(\<And>m. P (ConsoleError (Message m))) \<Longrightarrow> emits P (npx_catch argv err)"
  unfolding npx_catch_def
  by (intro emits_intros emits_log) simp

lemma io_runCommand_eq:
  "io_runCommand E c argv a w =
     (case child_runCommand E c (argv\<lparr>opt_cmdOpts := Some a\<rparr>) of
        None \<Rightarrow> (Resolves (), w\<lparr>trace := trace w @ [RunCommand c a]\<rparr>)
      | Some err \<Rightarrow>
          if isOperational err \<and> truthy_exitCode err
          then (Resolves (), w\<lparr>trace := trace w @ [RunCommand c a], process_exitCode := exitCode err\<rparr>)
          else (Rejects err, w\<lparr>trace := trace w @ [RunCommand c a]\<rparr>))"
  by (auto simp: io_runCommand_def io_defs truthy_exitCode_def split: option.splits)

lemma execCommand_child:
  assumes "RunCommand c a \<in> set (new_events w (execCommand n E ex argv w))"
  shows "execCommand n E ex argv w = io_runCommand E c argv a w"
proof (cases "findNodeScript n E ex (opt_isLocal argv)")
  case (Resolves existing)
  note exec = execCommand_Resolves[OF Resolves, of w]
  consider (takeover) "truthy_str existing \<and> \<not> opt_alwaysSpawn argv \<and> \<not> truthy_nodeArg (opt_nodeArg argv)
          \<and> \<not> truthy_str (opt_shell argv) \<and> existing \<noteq> argv1 w"
    | (usage) "\<not> (truthy_str existing \<and> \<not> opt_alwaysSpawn argv \<and> \<not> truthy_nodeArg (opt_nodeArg argv)
          \<and> \<not> truthy_str (opt_shell argv) \<and> existing \<noteq> argv1 w)"
        "\<not> truthy_str existing \<and> truthy_nodeArg (opt_nodeArg argv) \<and> nodeArg_length (opt_nodeArg argv)"
    | (script) "\<not> (truthy_str existing \<and> \<not> opt_alwaysSpawn argv \<and> \<not> truthy_nodeArg (opt_nodeArg argv)
          \<and> \<not> truthy_str (opt_shell argv) \<and> existing \<noteq> argv1 w)"
        "\<not> (\<not> truthy_str existing \<and> truthy_nodeArg (opt_nodeArg argv) \<and> nodeArg_length (opt_nodeArg argv))"
        "truthy_str existing"
    | (plain) "\<not> (truthy_str existing \<and> \<not> opt_alwaysSpawn argv \<and> \<not> truthy_nodeArg (opt_nodeArg argv)
          \<and> \<not> truthy_str (opt_shell argv) \<and> existing \<noteq> argv1 w)"
        "\<not> (\<not> truthy_str existing \<and> truthy_nodeArg (opt_nodeArg argv) \<and> nodeArg_length (opt_nodeArg argv))"
        "\<not> truthy_str existing"
    by blast
  then show ?thesis
  proof cases
    case takeover
    from exec have "execCommand n E ex argv w = takeover argv (the existing) (userArgs argv) w"
      by (simp only: if_P[OF takeover])
    with assms show ?thesis
      by (simp add: takeover_world new_events_def split: if_splits)
  next
    case usage
    from exec have "execCommand n E ex argv w = (Rejects (new_Error NodeArgUsage), w)"
      by (simp only: if_not_P[OF usage(1)] if_P[OF usage(2)])
    with assms show ?thesis
      by (simp add: new_events_def)
  next
    case script
    from exec have *: "execCommand n E ex argv w = io_runCommand E (runtime_cmd E w) argv
             (concat (map split_ws (nodeArg_list (opt_nodeArg argv)))
                @ [the existing] @ userArgs argv) w"
      by (simp only: if_not_P[OF script(1)] if_not_P[OF script(2)] if_P[OF script(3)])
    with assms have "c = runtime_cmd E w"
      "a = concat (map split_ws (nodeArg_list (opt_nodeArg argv))) @ [the existing] @ userArgs argv"
      by (simp_all add: io_runCommand_world new_events_def)
    with * show ?thesis by simp
  next
    case plain
    from exec have *: "execCommand n E ex argv w = io_runCommand E existing argv (userArgs argv) w"
      by (simp only: if_not_P[OF plain(1)] if_not_P[OF plain(2)] if_not_P[OF plain(3)])
    with assms have "c = existing" "a = userArgs argv"
      by (simp_all add: io_runCommand_world new_events_def)
    with * show ?thesis by simp
  qed
next
  case (Rejects err)
  with assms show ?thesis by (simp add: execCommand_def io_defs new_events_def)
next
  case (Exits c)
  with assms show ?thesis by (simp add: execCommand_def io_defs new_events_def)
next
  case Diverges
  with assms show ?thesis by (simp add: execCommand_def io_defs new_events_def)
qed

lemma emits_execCommand:
  assumes "\<And>c a. P (RunCommand c a)" "P YargsReset" "P RunMain"
  shows "emits P (execCommand n E ex argv)"
proof (rule emitsI)
  fix w
  show "\<exists>evs. trace (snd (execCommand n E ex argv w)) = trace w @ evs \<and> (\<forall>e \<in> set evs. P e)"
  proof (cases "findNodeScript n E ex (opt_isLocal argv)")
    case (Resolves existing)
    show ?thesis
      unfolding execCommand_Resolves[OF Resolves, of w]
      using assms by (auto simp: takeover_world io_runCommand_world)
  next
    case (Rejects err)
    then show ?thesis by (simp add: execCommand_def io_defs)
  next
    case (Exits c)
    then show ?thesis by (simp add: execCommand_def io_defs)
  next
    case Diverges
    then show ?thesis by (simp add: execCommand_def io_defs)
  qed
qed


section \<open>The outcome of the child\<close>

lemma npx_catch_eq:
  "npx_catch argv err w =
     (Resolves (),
      w\<lparr>trace := trace w @ (if opt_q argv then [] else [ConsoleError (Message (message err))]),
        process_exitCode := Some (exit_status err)\<rparr>)"
  by (simp add: npx_catch_def io_defs exit_status_def)

lemma npx_main:
  assumes "main_path argv" "npx_existing n E argv w = (r1, w1)"
  shows "npx n E argv w =
     (case r1 of
        Resolves ex \<Rightarrow>
          (case execCommand n E ex argv w1 of
             (Rejects err, w2) \<Rightarrow> npx_catch argv err w2
           | (r2, w2) \<Rightarrow> (r2, w2))
      | Rejects err \<Rightarrow> npx_catch argv err w1
      | Exits c \<Rightarrow> (Exits c, w1)
      | Diverges \<Rightarrow> (Diverges, w1))"
proof -
  from assms(1) have A: "opt_shell_auto_fallback argv = None"
    and B: "\<not> (\<not> truthy_str (opt_call argv)
              \<and> (\<not> truthy_str (opt_command argv) \<or> opt_package argv = None))"
    unfolding main_path_def by blast+
  have "npx n E argv =
      io_catch (io_bind (npx_existing n E argv) (\<lambda>existing. execCommand n E existing argv))
        (npx_catch argv)"
    unfolding npx_def by (simp only: A option.case if_not_P[OF B])
  with assms(2) show ?thesis
    by (simp add: io_catch_def io_bind_def split: result.splits prod.splits)
qed

lemma npx_aside:
  assumes "\<not> main_path argv"
  shows "\<forall>e \<in> set (new_events w (npx n E argv w)). \<not> is_RunCommand e \<and> \<not> is_Spawn e"
  using assms
  by (auto simp: npx_def main_path_def new_events_def io_defs split: option.splits)

text \<open>
  C9. When the child that \<open>npx\<close> ran fails: if the error is operational and has an exit
  code, \<open>execCommand\<close> resolves, \<^verbatim>\<open>process.exitCode\<close> is that exit code and the call of the
  child is the last thing in the trace (nothing is printed after it); otherwise
  \<open>execCommand\<close> rejects with the same error, and the handler of \<open>npx\<close> prints its
  message unless \<^verbatim>\<open>q\<close> is set and sets \<^verbatim>\<open>process.exitCode\<close> to \<^verbatim>\<open>err.exitCode || 1\<close>.
\<close>

theorem child_failure:
  assumes "RunCommand c a \<in> set (new_events w (npx n E argv w))"
      and "child_runCommand E c (argv\<lparr>opt_cmdOpts := Some a\<rparr>) = Some err"
  shows "fst (npx n E argv w) = Resolves ()
     \<and> (isOperational err \<and> truthy_exitCode err \<longrightarrow>
          process_exitCode (snd (npx n E argv w)) = exitCode err
        \<and> last (trace (snd (npx n E argv w))) = RunCommand c a)
     \<and> (\<not> (isOperational err \<and> truthy_exitCode err) \<longrightarrow>
          process_exitCode (snd (npx n E argv w)) = Some (exit_status err)
        \<and> last (trace (snd (npx n E argv w)))
            = (if opt_q argv then RunCommand c a else ConsoleError (Message (message err))))
     \<and> (\<forall>ex w1. RunCommand c a \<in> set (new_events w1 (execCommand n E ex argv w1)) \<longrightarrow>
          fst (execCommand n E ex argv w1)
            = (if isOperational err \<and> truthy_exitCode err then Resolves () else Rejects err))"
proof -
  have exec: "fst (execCommand n E ex argv w1)
            = (if isOperational err \<and> truthy_exitCode err then Resolves () else Rejects err)"
    if "RunCommand c a \<in> set (new_events w1 (execCommand n E ex argv w1))" for ex w1
    using execCommand_child[OF that] assms(2) by (simp add: io_runCommand_eq)
  have main: "main_path argv"
    using npx_aside[of argv w n E] assms(1) by fastforce
  obtain r1 w1 where 1: "npx_existing n E argv w = (r1, w1)"
    by (cases "npx_existing n E argv w")
  have "emits (\<lambda>e. \<not> is_RunCommand e) (npx_existing n E argv)"
    by (rule emits_npx_existing) simp_all
  from emitsD[OF this, of w] 1 obtain evs1 where
    evs1: "trace w1 = trace w @ evs1" "\<forall>e \<in> set evs1. \<not> is_RunCommand e" by auto
  note npx = npx_main[OF main 1]
  have quiet: "RunCommand c a \<notin> set (new_events w (npx_catch argv e w1))" for e
    using evs1 by (auto simp: npx_catch_eq new_events_def)
  show ?thesis
  proof (cases r1)
    case (Resolves ex)
    obtain r2 w2 where 2: "execCommand n E ex argv w1 = (r2, w2)"
      by (cases "execCommand n E ex argv w1")
    have "emits (\<lambda>e. True) (execCommand n E ex argv)"
      by (rule emits_execCommand) simp_all
    from emitsD[OF this, of w1] 2 obtain evs2 where
      evs2: "trace w2 = trace w1 @ evs2" by auto
    have "set (new_events w (npx n E argv w)) \<subseteq> set evs1 \<union> set evs2 \<union> {e. \<exists>m. e = ConsoleError m}"
      using npx Resolves 2 evs1 evs2
      by (auto simp: npx_catch_eq new_events_def split: result.splits if_splits)
    with assms(1) evs1 have "RunCommand c a \<in> set evs2" by fastforce
    with evs2 2 have in2: "RunCommand c a \<in> set (new_events w1 (execCommand n E ex argv w1))"
      by (simp add: new_events_def)
    from execCommand_child[OF in2] have
      run: "execCommand n E ex argv w1 = io_runCommand E c argv a w1" .
    show ?thesis
    proof (cases "isOperational err \<and> truthy_exitCode err")
      case True
      with run assms(2) have "execCommand n E ex argv w1
          = (Resolves (), w1\<lparr>trace := trace w1 @ [RunCommand c a], process_exitCode := exitCode err\<rparr>)"
        by (simp add: io_runCommand_eq)
      with npx Resolves True exec show ?thesis by simp
    next
      case False
      with run assms(2) have "execCommand n E ex argv w1
          = (Rejects err, w1\<lparr>trace := trace w1 @ [RunCommand c a]\<rparr>)"
        by (simp add: io_runCommand_eq)
      with npx Resolves False exec show ?thesis by (auto simp: npx_catch_eq)
    qed
  next
    case (Rejects e)
    with npx quiet[of e] assms(1) show ?thesis by simp
  next
    case (Exits k)
    with npx evs1 assms(1) show ?thesis by (auto simp: new_events_def)
  next
    case Diverges
    with npx evs1 assms(1) show ?thesis by (auto simp: new_events_def)
  qed
qed

text \<open>\<^verbatim>\<open>npx cowsay hello\<close> where \<^verbatim>\<open>cowsay\<close> exits with code 3.\<close>

theorem child_failure_witness:
  "fst (npx 2 env_child_fails argv_cowsay world0) = Resolves ()
   \<and> process_exitCode (snd (npx 2 env_child_fails argv_cowsay world0)) = Some 3
   \<and> last (trace (snd (npx 2 env_child_fails argv_cowsay world0))) = RunCommand None [ascii ''hello'']"
proof -
  have 1: "RunCommand None [ascii ''hello'']
             \<in> set (new_events world0 (npx 2 env_child_fails argv_cowsay world0))"
    by code_simp
  have 2: "child_runCommand env_child_fails None (argv_cowsay\<lparr>opt_cmdOpts := Some [ascii ''hello'']\<rparr>)
             = Some (child_error 3)"
    by (simp add: env_child_fails_def)
  have 3: "isOperational (child_error 3) \<and> truthy_exitCode (child_error 3)"
    "exitCode (child_error 3) = Some 3"
    by (simp_all add: child_error_def truthy_exitCode_def)
  from child_failure[OF 1 2] 3 show ?thesis by simp
qed

section \<open>A failing install\<close>

lemma spawns_append: "spawns (xs @ ys) = spawns xs @ spawns ys"
  by (induction xs rule: spawns.induct) simp_all

lemma spawns_quiet: "(\<forall>e \<in> set evs. \<not> is_Spawn e) \<Longrightarrow> spawns evs = []"
  by (induction evs rule: spawns.induct) simp_all

lemma spawns_mem: "Spawn c a \<in> set evs \<longleftrightarrow> (c, a) \<in> set (spawns evs)"
  by (induction evs rule: spawns.induct) auto

lemma once_quiet:
  assumes "emits (\<lambda>e. \<not> is_Spawn e) m"
  shows "installs_once E specs m"
  unfolding installs_once_def
proof
  fix w
  from emitsD[OF assms, of w] obtain evs where
    "trace (snd (m w)) = trace w @ evs" "\<forall>e \<in> set evs. \<not> is_Spawn e" by blast
  then have "trace (snd (m w)) = trace w @ evs \<and> spawns evs = []"
    by (simp add: spawns_quiet)
  then show "\<exists>evs. trace (snd (m w)) = trace w @ evs \<and>
        (spawns evs = [] \<or>
         (\<exists>c a pre post. evs = pre @ Spawn c a # post \<and> spawns pre = [] \<and> spawns post = [] \<and>
            (\<forall>err. child_spawn E c a = Inl err \<longrightarrow>
               post = [] \<and> fst (m w) = Rejects (install_failure specs err))))"
    by blast
qed

lemma once_before:
  assumes "emits (\<lambda>e. \<not> is_Spawn e) m" "\<And>x. installs_once E specs (g x)"
  shows "installs_once E specs (io_bind m g)"
  unfolding installs_once_def
proof
  fix w
  obtain r w1 where m: "m w = (r, w1)" by (cases "m w")
  from emitsD[OF assms(1), of w] m obtain evs1 where
    1: "trace w1 = trace w @ evs1" "spawns evs1 = []" by (auto simp: spawns_quiet)
  let ?goal = "\<exists>evs. trace (snd (io_bind m g w)) = trace w @ evs \<and>
        (spawns evs = [] \<or>
         (\<exists>c a pre post. evs = pre @ Spawn c a # post \<and> spawns pre = [] \<and> spawns post = [] \<and>
            (\<forall>err. child_spawn E c a = Inl err \<longrightarrow>
               post = [] \<and> fst (io_bind m g w) = Rejects (install_failure specs err))))"
  have skip: ?goal if "snd (io_bind m g w) = w1"
  proof -
    from that 1 have "trace (snd (io_bind m g w)) = trace w @ evs1 \<and> spawns evs1 = []" by simp
    then show ?thesis by blast
  qed
  show ?goal
  proof (cases r)
    case (Resolves x)
    with m have b: "io_bind m g w = g x w1" by (simp add: io_bind_def)
    from assms(2)[of x, unfolded installs_once_def, rule_format, of w1] obtain evs2 where
      2: "trace (snd (g x w1)) = trace w1 @ evs2"
      and 3: "spawns evs2 = [] \<or>
         (\<exists>c a pre post. evs2 = pre @ Spawn c a # post \<and> spawns pre = [] \<and> spawns post = [] \<and>
            (\<forall>err. child_spawn E c a = Inl err \<longrightarrow>
               post = [] \<and> fst (g x w1) = Rejects (install_failure specs err)))"
      by blast
    from 3 show ?thesis
    proof
      assume "spawns evs2 = []"
      with 1 2 b have "trace (snd (io_bind m g w)) = trace w @ (evs1 @ evs2) \<and> spawns (evs1 @ evs2) = []"
        by (simp add: spawns_append)
      then show ?thesis by blast
    next
      assume "\<exists>c a pre post. evs2 = pre @ Spawn c a # post \<and> spawns pre = [] \<and> spawns post = [] \<and>
            (\<forall>err. child_spawn E c a = Inl err \<longrightarrow>
               post = [] \<and> fst (g x w1) = Rejects (install_failure specs err))"
      then obtain c a pre post where
        4: "evs2 = pre @ Spawn c a # post" "spawns pre = []" "spawns post = []"
           "\<forall>err. child_spawn E c a = Inl err \<longrightarrow>
               post = [] \<and> fst (g x w1) = Rejects (install_failure specs err)"
        by blast
      with 1 2 b have "trace (snd (io_bind m g w)) = trace w @ ((evs1 @ pre) @ Spawn c a # post)
          \<and> spawns (evs1 @ pre) = [] \<and> spawns post = []
          \<and> (\<forall>err. child_spawn E c a = Inl err \<longrightarrow>
               post = [] \<and> fst (io_bind m g w) = Rejects (install_failure specs err))"
        by (simp add: spawns_append)
      then show ?thesis by blast
    qed
  next
    case (Rejects err)
    with m show ?thesis by (intro skip) (simp add: io_bind_def)
  next
    case (Exits k)
    with m show ?thesis by (intro skip) (simp add: io_bind_def)
  next
    case Diverges
    with m show ?thesis by (intro skip) (simp add: io_bind_def)
  qed
qed

lemma once_after:
  assumes "installs_once E specs m" "\<And>x. emits (\<lambda>e. \<not> is_Spawn e) (g x)"
  shows "installs_once E specs (io_bind m g)"
  unfolding installs_once_def
proof
  fix w
  obtain r w1 where m: "m w = (r, w1)" by (cases "m w")
  from assms(1)[unfolded installs_once_def, rule_format, of w] obtain evs1 where
    "trace (snd (m w)) = trace w @ evs1"
    "spawns evs1 = [] \<or>
         (\<exists>c a pre post. evs1 = pre @ Spawn c a # post \<and> spawns pre = [] \<and> spawns post = [] \<and>
            (\<forall>err. child_spawn E c a = Inl err \<longrightarrow>
               post = [] \<and> fst (m w) = Rejects (install_failure specs err)))"
    by blast
  then have 1: "trace w1 = trace w @ evs1"
    and 3: "spawns evs1 = [] \<or>
         (\<exists>c a pre post. evs1 = pre @ Spawn c a # post \<and> spawns pre = [] \<and> spawns post = [] \<and>
            (\<forall>err. child_spawn E c a = Inl err \<longrightarrow>
               post = [] \<and> r = Rejects (install_failure specs err)))"
    by (simp_all add: m)
  let ?goal = "\<exists>evs. trace (snd (io_bind m g w)) = trace w @ evs \<and>
        (spawns evs = [] \<or>
         (\<exists>c a pre post. evs = pre @ Spawn c a # post \<and> spawns pre = [] \<and> spawns post = [] \<and>
            (\<forall>err. child_spawn E c a = Inl err \<longrightarrow>
               post = [] \<and> fst (io_bind m g w) = Rejects (install_failure specs err))))"
  have skip: ?goal
    if "snd (io_bind m g w) = w1" "\<And>e. r = Rejects e \<Longrightarrow> fst (io_bind m g w) = Rejects e"
  proof -
    from 3 have "spawns evs1 = [] \<or>
         (\<exists>c a pre post. evs1 = pre @ Spawn c a # post \<and> spawns pre = [] \<and> spawns post = [] \<and>
            (\<forall>err. child_spawn E c a = Inl err \<longrightarrow>
               post = [] \<and> fst (io_bind m g w) = Rejects (install_failure specs err)))"
      using that(2) by blast
    with that(1) 1 show ?thesis by auto
  qed
  show ?goal
  proof (cases r)
    case (Resolves x)
    with m have b: "io_bind m g w = g x w1" by (simp add: io_bind_def)
    from emitsD[OF assms(2), of x w1] obtain evs2 where
      2: "trace (snd (g x w1)) = trace w1 @ evs2" "spawns evs2 = []"
      by (auto simp: spawns_quiet)
    from 3 show ?thesis
    proof
      assume "spawns evs1 = []"
      with 1 2 b have "trace (snd (io_bind m g w)) = trace w @ (evs1 @ evs2) \<and> spawns (evs1 @ evs2) = []"
        by (simp add: spawns_append)
      then show ?thesis by blast
    next
      assume "\<exists>c a pre post. evs1 = pre @ Spawn c a # post \<and> spawns pre = [] \<and> spawns post = [] \<and>
            (\<forall>err. child_spawn E c a = Inl err \<longrightarrow>
               post = [] \<and> r = Rejects (install_failure specs err))"
      then obtain c a pre post where
        4: "evs1 = pre @ Spawn c a # post" "spawns pre = []" "spawns post = []"
           "\<forall>err. child_spawn E c a = Inl err \<longrightarrow>
               post = [] \<and> r = Rejects (install_failure specs err)"
        by blast
      from 4(4) Resolves have ok: "\<forall>err. child_spawn E c a \<noteq> Inl err" by auto
      from 1 2 4 b have "trace (snd (io_bind m g w)) = trace w @ (pre @ Spawn c a # (post @ evs2))
          \<and> spawns pre = [] \<and> spawns (post @ evs2) = []"
        by (simp add: spawns_append)
      with ok show ?thesis by blast
    qed
  next
    case (Rejects err)
    with m show ?thesis by (intro skip) (simp_all add: io_bind_def)
  next
    case (Exits k)
    with m show ?thesis by (intro skip) (simp_all add: io_bind_def)
  next
    case Diverges
    with m show ?thesis by (intro skip) (simp_all add: io_bind_def)
  qed
qed

lemma once_if:
  "installs_once E specs a \<Longrightarrow> installs_once E specs b \<Longrightarrow> installs_once E specs (if c then a else b)"
  by simp

lemma once_case_prod:
  "(\<And>x y. installs_once E specs (f x y)) \<Longrightarrow> installs_once E specs (case v of (x, y) \<Rightarrow> f x y)"
  by (cases v) simp

lemma once_case_option:
  "installs_once E specs a \<Longrightarrow> (\<And>x. installs_once E specs (f x)) \<Longrightarrow>
   installs_once E specs (case v of None \<Rightarrow> a | Some x \<Rightarrow> f x)"
  by (cases v) simp_all


lemma installPackages_cases:
  "(snd (installPackages n E specs prefix opts w) = w
      \<and> (\<forall>x. fst (installPackages n E specs prefix opts w) \<noteq> Resolves x))
   \<or> (\<exists>c a. snd (installPackages n E specs prefix opts w) = w\<lparr>trace := trace w @ [Spawn c a]\<rparr>
         \<and> (\<forall>err. child_spawn E c a = Inl err \<longrightarrow>
               fst (installPackages n E specs prefix opts w) = Rejects (install_failure specs err)))"
proof (cases "findNodeScript n E (opt_npm opts) True")
  case (Resolves npmPath)
  define a where "a = (if truthy_str npmPath
                     then (if platform E = Win32
                           then Some (child_escapeArg E (opt_npm opts) False)
                           else opt_npm opts) # buildArgs specs prefix opts
                     else buildArgs specs prefix opts)"
  define c0 where "c0 = (if truthy_str npmPath then Some (argv0 w) else opt_npm opts)"
  define c where "c = (if platform E = Win32 then Some (child_escapeArg E c0 True) else c0)"
  have eq: "installPackages n E specs prefix opts w =
      (case (of_sum (child_spawn E c a), w\<lparr>trace := trace w @ [Spawn c a]\<rparr>) of
         (Resolves stdout, w') \<Rightarrow>
           (Resolves (if truthy_str stdout
                      then (case JSON_parse E (the stdout) of None \<Rightarrow> PFalsy | Some info \<Rightarrow> info)
                      else PFalsy), w')
       | (Rejects err, w') \<Rightarrow> (Rejects (install_failure specs err), w')
       | (Exits k, w') \<Rightarrow> (Exits k, w')
       | (Diverges, w') \<Rightarrow> (Diverges, w'))"
    unfolding a_def c_def c0_def install_failure_def installPackages_def io_defs io_argv0_def
      io_spawn_def Let_def Resolves
    by (simp split: prod.splits result.splits)
  have "snd (installPackages n E specs prefix opts w) = w\<lparr>trace := trace w @ [Spawn c a]\<rparr>
         \<and> (\<forall>err. child_spawn E c a = Inl err \<longrightarrow>
               fst (installPackages n E specs prefix opts w) = Rejects (install_failure specs err))"
    unfolding eq by (cases "child_spawn E c a") simp_all
  then show ?thesis by blast
next
  case (Rejects err)
  then show ?thesis by (simp add: installPackages_def io_defs Let_def)
next
  case (Exits k)
  then show ?thesis by (simp add: installPackages_def io_defs Let_def)
next
  case Diverges
  then show ?thesis by (simp add: installPackages_def io_defs Let_def)
qed

lemma once_installPackages: "installs_once E specs (installPackages n E specs prefix opts)"
  unfolding installs_once_def
proof
  fix w
  let ?m = "installPackages n E specs prefix opts"
  from installPackages_cases[of n E specs prefix opts w]
  show "\<exists>evs. trace (snd (?m w)) = trace w @ evs \<and>
        (spawns evs = [] \<or>
         (\<exists>c a pre post. evs = pre @ Spawn c a # post \<and> spawns pre = [] \<and> spawns post = [] \<and>
            (\<forall>err. child_spawn E c a = Inl err \<longrightarrow>
               post = [] \<and> fst (?m w) = Rejects (install_failure specs err))))"
  proof
    assume "snd (?m w) = w \<and> (\<forall>x. fst (?m w) \<noteq> Resolves x)"
    then have "trace (snd (?m w)) = trace w @ [] \<and> spawns [] = []" by simp
    then show ?thesis by blast
  next
    assume "\<exists>c a. snd (?m w) = w\<lparr>trace := trace w @ [Spawn c a]\<rparr>
         \<and> (\<forall>err. child_spawn E c a = Inl err \<longrightarrow> fst (?m w) = Rejects (install_failure specs err))"
    then obtain c a where "snd (?m w) = w\<lparr>trace := trace w @ [Spawn c a]\<rparr>"
      "\<forall>err. child_spawn E c a = Inl err \<longrightarrow> fst (?m w) = Rejects (install_failure specs err)"
      by blast
    then have "trace (snd (?m w)) = trace w @ ([] @ Spawn c a # []) \<and> spawns [] = []
        \<and> (\<forall>err. child_spawn E c a = Inl err \<longrightarrow>
               ([] :: event list) = [] \<and> fst (?m w) = Rejects (install_failure specs err))"
      by simp
    then show ?thesis by blast
  qed
qed

lemma once_ensurePackages: "installs_once E specs (ensurePackages n E specs opts)"
  unfolding ensurePackages_def Let_def
  apply (rule once_before)
   apply (intro emits_intros emits_getNpmCache; simp)
  apply (rule once_before)
   apply (rule emits_mkdirSync; simp)
  apply (rule once_before)
   apply (rule emits_on_exit; simp)
  apply (rule once_before)
   apply (rule emits_rimraf; simp)
  apply (rule once_after)
   apply (rule once_installPackages)
  apply (intro emits_intros)
  done

lemma once_npx_existing: "installs_once E (opt_package argv) (npx_existing n E argv)"
  unfolding npx_existing_def Let_def
  apply (rule once_before)
   apply (rule emits_lift)
  apply (rule once_before)
   apply (intro emits_intros)
  apply (rule once_before)
   apply (intro emits_promise_all emits_getEnv; simp)
  apply (rule once_case_prod)
  apply (rule once_before)
   apply (intro emits_intros)
  apply (rule once_if)
   apply (rule once_before)
    apply (intro emits_intros emits_log; simp)
   apply (rule once_before)
    apply (intro emits_intros emits_log; simp)
   apply (rule once_after)
    apply (rule once_ensurePackages)
   apply (intro emits_intros emits_log; simp)
  apply (rule once_quiet)
  apply (rule emits_return)
  done


lemma spawns_single:
  assumes "evs = pre @ Spawn c' a' # post" "spawns pre = []" "spawns post = []"
      and "Spawn c a \<in> set evs"
  shows "c' = c \<and> a' = a \<and> spawns evs = [(c, a)]"
proof -
  from assms(1-3) have "spawns evs = [(c', a')]" by (simp add: spawns_append)
  moreover from assms(4) have "(c, a) \<in> set (spawns evs)" by (simp add: spawns_mem)
  ultimately show ?thesis by simp
qed

lemma installPackages_failure:
  assumes "Spawn c a \<in> set (new_events w (installPackages n E specs prefix opts w))"
      and "child_spawn E c a = Inl err"
  shows "fst (installPackages n E specs prefix opts w) = Rejects (install_failure specs err)"
  using installPackages_cases[of n E specs prefix opts w] assms
  by (auto simp: new_events_def)

text \<open>
  C7. When the install that \<open>npx\<close> ran fails with an exit code other than 0:
  \<open>installPackages\<close> rejects with the error of the installer, its message replaced by
  one that names the requested specs and the exit code; this is the only install of the
  run; \<open>npx\<close> prints that message unless \<^verbatim>\<open>q\<close> is set, and \<^verbatim>\<open>process.exitCode\<close> is the exit
  code of the installer.
\<close>

theorem install_failure_exit_code:
  assumes "Spawn c a \<in> set (new_events w (npx n E argv w))"
      and "child_spawn E c a = Inl err" "truthy_exitCode err"
  shows "fst (npx n E argv w) = Resolves ()
       \<and> process_exitCode (snd (npx n E argv w)) = exitCode err
       \<and> spawns (new_events w (npx n E argv w)) = [(c, a)]
       \<and> last (trace (snd (npx n E argv w)))
           = (if opt_q argv then Spawn c a
              else ConsoleError (Message (InstallFailed (opt_package argv) (the (exitCode err)))))
       \<and> (\<forall>specs prefix opts w1.
            Spawn c a \<in> set (new_events w1 (installPackages n E specs prefix opts w1)) \<longrightarrow>
            fst (installPackages n E specs prefix opts w1)
              = Rejects (err\<lparr>message := InstallFailed specs (the (exitCode err))\<rparr>))"
proof -
  have inst: "fst (installPackages n E specs prefix opts w1)
              = Rejects (err\<lparr>message := InstallFailed specs (the (exitCode err))\<rparr>)"
    if "Spawn c a \<in> set (new_events w1 (installPackages n E specs prefix opts w1))"
    for specs prefix opts w1
    using installPackages_failure[OF that assms(2)] assms(3) by (simp add: install_failure_def)
  have main: "main_path argv"
    using npx_aside[of argv w n E] assms(1) by fastforce
  obtain r1 w1 where 1: "npx_existing n E argv w = (r1, w1)"
    by (cases "npx_existing n E argv w")
  from once_npx_existing[of E argv n, unfolded installs_once_def, rule_format, of w]
  obtain evs1 where "trace (snd (npx_existing n E argv w)) = trace w @ evs1"
    "spawns evs1 = [] \<or>
         (\<exists>c a pre post. evs1 = pre @ Spawn c a # post \<and> spawns pre = [] \<and> spawns post = [] \<and>
            (\<forall>err. child_spawn E c a = Inl err \<longrightarrow>
               post = [] \<and> fst (npx_existing n E argv w)
                            = Rejects (install_failure (opt_package argv) err)))"
    by blast
  then have evs1: "trace w1 = trace w @ evs1"
    and once: "spawns evs1 = [] \<or>
         (\<exists>c a pre post. evs1 = pre @ Spawn c a # post \<and> spawns pre = [] \<and> spawns post = [] \<and>
            (\<forall>err. child_spawn E c a = Inl err \<longrightarrow>
               post = [] \<and> r1 = Rejects (install_failure (opt_package argv) err)))"
    by (simp_all add: 1)
  note npx = npx_main[OF main 1]
  have in1: "Spawn c a \<in> set evs1"
  proof (cases r1)
    case (Resolves ex)
    obtain r2 w2 where 2: "execCommand n E ex argv w1 = (r2, w2)"
      by (cases "execCommand n E ex argv w1")
    have "emits (\<lambda>e. \<not> is_Spawn e) (execCommand n E ex argv)"
      by (rule emits_execCommand) simp_all
    from emitsD[OF this, of w1] 2 obtain evs2 where
      evs2: "trace w2 = trace w1 @ evs2" "\<forall>e \<in> set evs2. \<not> is_Spawn e" by auto
    have "set (new_events w (npx n E argv w)) \<subseteq> set evs1 \<union> set evs2 \<union> {e. \<exists>m. e = ConsoleError m}"
      using npx Resolves 2 evs1 evs2
      by (auto simp: npx_catch_eq new_events_def split: result.splits if_splits)
    with assms(1) evs2 show ?thesis by fastforce
  next
    case (Rejects e)
    with npx evs1 assms(1) show ?thesis
      by (auto simp: npx_catch_eq new_events_def split: if_splits)
  next
    case (Exits k)
    with npx evs1 assms(1) show ?thesis by (auto simp: new_events_def)
  next
    case Diverges
    with npx evs1 assms(1) show ?thesis by (auto simp: new_events_def)
  qed
  then have "spawns evs1 \<noteq> []" by (auto simp: spawns_mem)
  with once obtain c' a' pre post where
    dec: "evs1 = pre @ Spawn c' a' # post" "spawns pre = []" "spawns post = []"
    and out: "\<forall>err. child_spawn E c' a' = Inl err \<longrightarrow>
               post = [] \<and> r1 = Rejects (install_failure (opt_package argv) err)"
    by blast
  from spawns_single[OF dec in1] have same: "c' = c" "a' = a" and sp: "spawns evs1 = [(c, a)]"
    by simp_all
  from out same assms(2) have post: "post = []"
    and r1: "r1 = Rejects (install_failure (opt_package argv) err)" by simp_all
  let ?e = "err\<lparr>message := InstallFailed (opt_package argv) (the (exitCode err))\<rparr>"
  from r1 assms(3) have r1': "r1 = Rejects ?e" by (simp add: install_failure_def)
  from assms(3) have code: "Some (exit_status ?e) = exitCode err"
    by (auto simp: exit_status_def truthy_exitCode_def split: option.splits)
  from npx r1' have run: "npx n E argv w = npx_catch argv ?e w1" by simp
  have tr: "trace (snd (npx n E argv w))
      = trace w @ pre @ [Spawn c a] @ (if opt_q argv then [] else [ConsoleError (Message (message ?e))])"
    using evs1 dec post same by (simp add: run npx_catch_eq)
  then have ne: "new_events w (npx n E argv w)
      = pre @ [Spawn c a] @ (if opt_q argv then [] else [ConsoleError (Message (message ?e))])"
    by (simp add: new_events_def)
  have "fst (npx n E argv w) = Resolves ()"
    by (simp add: run npx_catch_eq)
  moreover have "process_exitCode (snd (npx n E argv w)) = exitCode err"
    using code by (simp add: run npx_catch_eq)
  moreover have "spawns (new_events w (npx n E argv w)) = [(c, a)]"
    using dec(2) by (simp add: ne spawns_append)
  moreover have "last (trace (snd (npx n E argv w)))
           = (if opt_q argv then Spawn c a
              else ConsoleError (Message (InstallFailed (opt_package argv) (the (exitCode err)))))"
    by (simp add: tr)
  ultimately show ?thesis using inst by blast
qed

text \<open>\<^verbatim>\<open>npx cowsay hello\<close> where the install exits with code 42.\<close>

theorem install_failure_exit_code_witness:
  "fst (npx 2 env_install_fails argv_cowsay world0) = Resolves ()
   \<and> process_exitCode (snd (npx 2 env_install_fails argv_cowsay world0)) = Some 42
   \<and> last (trace (snd (npx 2 env_install_fails argv_cowsay world0)))
       = ConsoleError (Message (InstallFailed (Some [ascii ''cowsay'']) 42))"
proof -
  let ?c = "Some (ascii ''/usr/bin/node'')"
  let ?a = "[Some (ascii ''/opt/pnpm/bin/pnpm.cjs''), Some (ascii ''install''), Some (ascii ''cowsay''),
             Some (ascii ''--global''), Some (ascii ''--dir''), Some (ascii ''/tmp/cache/_npx/4242'')]"
  have 1: "Spawn ?c ?a \<in> set (new_events world0 (npx 2 env_install_fails argv_cowsay world0))"
    by code_simp
  have 2: "child_spawn env_install_fails ?c ?a = Inl (child_error 42)"
    by (simp add: env_install_fails_def)
  have 3: "truthy_exitCode (child_error 42)"
    by (simp add: child_error_def truthy_exitCode_def)
  have 4: "exitCode (child_error 42) = Some 42" "\<not> opt_q argv_cowsay"
    "opt_package argv_cowsay = Some [ascii ''cowsay'']"
    by (simp_all add: child_error_def argv_cowsay_def)
  from install_failure_exit_code[OF 1 2 3] 4 show ?thesis by simp
qed

end
